theory Spec2Isabelle
  imports Complex_Main "HOL-Library.Sublist" "HOL-Library.Multiset"
begin

section \<open>Data model of \<open>gen_news.py\<close>\<close>

text \<open>
  A Python \<open>str\<close> is a sequence of Unicode code points and \<open>len\<close> counts code points,
  so a string is modelled as a list of code points. \<open>ustr_of\<close> reads an ASCII literal.
\<close>

type_synonym ustr = "nat list"

definition ustr_of :: "string \<Rightarrow> ustr" where
  "ustr_of s = map of_char s"

text \<open>The one-character ellipsis mark U+2026 that \<open>_truncate\<close> appends.\<close>

definition ellipsis :: ustr where
  "ellipsis = [8230]"

text \<open>
  A \<open>datetime\<close> object: its wall-clock fields packed as microseconds since
  0001-01-01T00:00:00 (\<open>datetime.min\<close> is 0), and its \<open>tzinfo\<close>, a fixed UTC offset in
  microseconds, or \<open>None\<close> for a naive value.
\<close>

record datetime =
  wall_us :: int
  tzinfo :: "int option"

text \<open>
  A news item: the dict the fetchers build (keys \<open>category\<close>, \<open>title\<close>, \<open>summary\<close>,
  \<open>source\<close>, \<open>link\<close>, \<open>time\<close>), and the key \<open>_dt\<close> that \<open>fetch_all\<close> adds, \<open>None\<close>
  until then.
\<close>

record news_item =
  category :: ustr
  title :: ustr
  summary :: ustr
  source :: ustr
  link :: ustr
  time :: ustr
  dt :: "datetime option"

text \<open>
  Exceptions are values. \<open>ValueError\<close> stands for the class and its subclasses, which is
  what \<open>except ValueError\<close> catches; every constructor is an \<open>Exception\<close>.
\<close>

datatype py_exc =
  ValueError | TypeError | KeyError | AttributeError | OverflowError | OSError
  | HTTPError | RequestException | OtherException ustr

text \<open>A decoded JSON document (\<open>resp.json()\<close>); numbers are finite.\<close>

datatype json =
  JNull | JBool bool | JNum real | JStr ustr | JList "json list" | JDict "(ustr \<times> json) list"

text \<open>A parsed HTML tree (BeautifulSoup): text nodes and tags with attributes.\<close>

datatype node = Text ustr | Tag ustr "(ustr \<times> ustr) list" "node list"

text \<open>A feed entry (feedparser): the keys the fetcher reads, \<open>None\<close> when absent.\<close>

record entry =
  e_title :: "ustr option"
  e_summary :: "ustr option"
  e_description :: "ustr option"
  e_link :: "ustr option"
  e_published :: "ustr option"
  e_updated :: "ustr option"

text \<open>An HTTP response: what \<open>raise_for_status()\<close> raises, if anything, and the body.\<close>

record response =
  status_error :: "py_exc option"
  content :: "nat list"

text \<open>A source configuration: \<open>alt_urls\<close> is optional, \<open>selectors\<close> is for scraping only.\<close>

record selectors =
  sel_article :: ustr
  sel_title :: ustr
  sel_summary :: ustr
  sel_time :: ustr

record source_config =
  src_name :: ustr
  src_category :: ustr
  src_method :: ustr
  src_url :: ustr
  src_alt_urls :: "ustr list option"
  src_selectors :: "selectors option"

text \<open>
  The world outside the program: the network and the libraries it calls (requests,
  feedparser, BeautifulSoup with its CSS selectors, the translator, the standard library's
  parsers and Unicode tables). A function of the world returns what the call returns, or
  the exception it raises.
\<close>

record env =
  fetch_url :: "ustr \<Rightarrow> py_exc + response"
  feedparser_parse :: "nat list \<Rightarrow> py_exc + entry list"
  parse_html :: "nat list \<Rightarrow> py_exc + node"
  css_select :: "ustr \<Rightarrow> node \<Rightarrow> py_exc + node list"
  json_loads :: "nat list \<Rightarrow> py_exc + json"
  localtime_strftime :: "real \<Rightarrow> py_exc + ustr"
  unescape :: "ustr \<Rightarrow> ustr"
  ucd_lower :: "ustr \<Rightarrow> nat \<Rightarrow> ustr"
  ucd_decimal :: "nat \<Rightarrow> nat option"
  keyword_search :: "ustr \<Rightarrow> bool"
  og_description :: "ustr \<Rightarrow> ustr"
  translate_batch :: "ustr list \<Rightarrow> py_exc + ustr option list"
  parsedate_to_datetime :: "ustr \<Rightarrow> py_exc + datetime"
  strptime :: "ustr \<Rightarrow> ustr \<Rightarrow> py_exc + datetime"

definition MAX_ITEMS_PER_SOURCE :: nat where
  "MAX_ITEMS_PER_SOURCE = 5"

text \<open>
  Microseconds: a number of days, \<open>timedelta(weeks=2)\<close>, and the fields of
  \<open>datetime.max\<close>.
\<close>

definition MAX_US :: int where
  "MAX_US = 3652059 * 86400000000 - 1"

definition two_weeks :: int where
  "two_weeks = 14 * 86400000000"

definition days :: "int \<Rightarrow> int" where
  "days k = k * 86400000000"

section \<open>Helpers\<close>

text \<open>\<open>_truncate(text, n)\<close>: \<open>text[:n] + "\<dots>" if len(text) > n else text\<close>.\<close>

definition truncate :: "ustr \<Rightarrow> nat \<Rightarrow> ustr" where
  "truncate text n = (if length text > n then take n text @ ellipsis else text)"

text \<open>
  Unicode whitespace, as \<open>str.strip()\<close>, \<open>str.isspace()\<close> and the regex class \<open>\s\<close> on
  \<open>str\<close> patterns take it.
\<close>

definition is_space :: "nat \<Rightarrow> bool" where
  "is_space c \<longleftrightarrow>
     (9 \<le> c \<and> c \<le> 13) \<or> (28 \<le> c \<and> c \<le> 32) \<or> c = 133 \<or> c = 160 \<or> c = 5760 \<or>
     (8192 \<le> c \<and> c \<le> 8202) \<or> c = 8232 \<or> c = 8233 \<or> c = 8239 \<or> c = 8287 \<or>
     c = 12288"

definition lstrip :: "ustr \<Rightarrow> ustr" where
  "lstrip s = dropWhile is_space s"

definition rstrip :: "ustr \<Rightarrow> ustr" where
  "rstrip s = rev (dropWhile is_space (rev s))"

definition strip :: "ustr \<Rightarrow> ustr" where
  "strip s = rstrip (lstrip s)"

text \<open>
  \<open>str.lower()\<close> maps every code point in turn to its lower-case code points. The ASCII
  letters are mapped here; the mapping of a code point beyond ASCII, which may depend on
  its position in the string, is the Unicode database's (\<open>ucd_lower\<close>).
\<close>

definition lower :: "env \<Rightarrow> ustr \<Rightarrow> ustr" where
  "lower w s =
     concat (map (\<lambda>i. let c = s ! i in
                      if c < 128 then [if 65 \<le> c \<and> c \<le> 90 then c + 32 else c]
                      else ucd_lower w s i)
                 [0..<length s])"

text \<open>\<open>_is_summary_useless(title, summary)\<close>.\<close>

definition is_summary_useless :: "env \<Rightarrow> ustr \<Rightarrow> ustr \<Rightarrow> bool" where
  "is_summary_useless w ttl summ =
     (if summ = [] \<or> length summ < 150 then True
      else let s_lower = strip (lower w summ);
               t_lower = strip (lower w ttl)
           in if prefix (take 30 t_lower) s_lower then True else False)"

text \<open>
  \<open>_is_chinese(text)\<close>: \<open>zh_count / max(len(text), 1) > 0.2\<close>, the quotient compared
  exactly (\<open>5 * zh_count > max(len(text), 1)\<close>).
\<close>

definition is_chinese :: "ustr \<Rightarrow> bool" where
  "is_chinese text =
     (if text = [] then True
      else let zh_count = length (filter (\<lambda>c. 19968 \<le> c \<and> c \<le> 40959) text)
           in 5 * zh_count > max (length text) 1)"

text \<open>Sequencing of calls that may raise: the first exception ends the computation.\<close>

definition and_then :: "'e + 'a \<Rightarrow> ('a \<Rightarrow> 'e + 'b) \<Rightarrow> 'e + 'b" where
  "and_then r f = (case r of Inl exc \<Rightarrow> Inl exc | Inr v \<Rightarrow> f v)"

text \<open>
  \<open>_clean(text)\<close>. The first substitution \<open>re.sub(r"<[^>]+>", "", text)\<close> removes, from
  left to right, every \<open><\<close> with at least one character other than \<open>>\<close> up to the next
  \<open>>\<close>; the second one, \<open>re.sub(r"\s+", " ", text)\<close>, turns every run of whitespace into
  one space. \<open>html.unescape\<close> is the library's.
\<close>

function strip_tags :: "ustr \<Rightarrow> ustr" where
  "strip_tags [] = []"
| "strip_tags (c # cs) =
     (if c = 60 \<and> takeWhile (\<lambda>x. x \<noteq> 62) cs \<noteq> [] \<and> dropWhile (\<lambda>x. x \<noteq> 62) cs \<noteq> []
      then strip_tags (tl (dropWhile (\<lambda>x. x \<noteq> 62) cs))
      else c # strip_tags cs)"
  by pat_completeness auto
termination
  by (relation "measure length")
    (auto simp: less_Suc_eq_le intro: le_trans [OF _ length_dropWhile_le] diff_le_self)

function collapse_ws :: "ustr \<Rightarrow> ustr" where
  "collapse_ws [] = []"
| "collapse_ws (c # cs) =
     (if is_space c then 32 # collapse_ws (dropWhile is_space cs) else c # collapse_ws cs)"
  by pat_completeness auto
termination
  by (relation "measure length") (auto simp: less_Suc_eq_le length_dropWhile_le)

definition clean :: "env \<Rightarrow> ustr \<Rightarrow> ustr" where
  "clean w text =
     (if text = [] then [] else strip (collapse_ws (unescape w (strip_tags text))))"

text \<open>
  Python on a decoded JSON value: its truth value, \<open>obj.get(key, default)\<close> (an
  \<open>AttributeError\<close> unless \<open>obj\<close> is a dict, whose keys are distinct), iteration, and
  \<open>_clean\<close>, whose regex raises \<open>TypeError\<close> on a true value that is not a string.
\<close>

definition truthy :: "json \<Rightarrow> bool" where
  "truthy v =
     (case v of JNull \<Rightarrow> False | JBool b \<Rightarrow> b | JNum x \<Rightarrow> x \<noteq> 0 | JStr s \<Rightarrow> s \<noteq> []
      | JList xs \<Rightarrow> xs \<noteq> [] | JDict kvs \<Rightarrow> kvs \<noteq> [])"

definition dict_get :: "json \<Rightarrow> ustr \<Rightarrow> json \<Rightarrow> py_exc + json" where
  "dict_get obj key dflt =
     (case obj of
        JDict kvs \<Rightarrow> Inr (case map_of kvs key of None \<Rightarrow> dflt | Some v \<Rightarrow> v)
      | _ \<Rightarrow> Inl AttributeError)"

definition py_iter :: "json \<Rightarrow> py_exc + json list" where
  "py_iter v =
     (case v of
        JList xs \<Rightarrow> Inr xs
      | JDict kvs \<Rightarrow> Inr (map (\<lambda>kv. JStr (fst kv)) kvs)
      | JStr s \<Rightarrow> Inr (map (\<lambda>c. JStr [c]) s)
      | _ \<Rightarrow> Inl TypeError)"

definition clean_json :: "env \<Rightarrow> json \<Rightarrow> py_exc + ustr" where
  "clean_json w v =
     (if \<not> truthy v then Inr []
      else case v of JStr s \<Rightarrow> Inr (clean w s) | _ \<Rightarrow> Inl TypeError)"

text \<open>
  A value stored under \<open>link\<close>: the string, when it is one. (The program stores whatever
  the payload holds under \<open>shareurl\<close>; the model keeps strings only.)
\<close>

definition json_text :: "json \<Rightarrow> ustr" where
  "json_text v = (case v of JStr s \<Rightarrow> s | _ \<Rightarrow> [])"

text \<open>
  BeautifulSoup on a node: \<open>name\<close>, \<open>get(attr, default)\<close>, \<open>get_text()\<close>,
  \<open>get_text(strip=True)\<close>, \<open>find(name)\<close> (the first descendant tag of that name), and
  \<open>select_one\<close> (the first match of the selector, if any). A selection returns tags.
\<close>

fun tag_name :: "node \<Rightarrow> ustr" where
  "tag_name (Text s) = []"
| "tag_name (Tag name attrs children) = name"

fun attr :: "node \<Rightarrow> ustr \<Rightarrow> ustr \<Rightarrow> ustr" where
  "attr (Text s) key dflt = dflt"
| "attr (Tag name attrs children) key dflt =
     (case map_of attrs key of None \<Rightarrow> dflt | Some v \<Rightarrow> v)"

fun get_text :: "node \<Rightarrow> ustr" where
  "get_text (Text s) = s"
| "get_text (Tag name attrs children) = concat (map get_text children)"

fun get_text_strip :: "node \<Rightarrow> ustr" where
  "get_text_strip (Text s) = strip s"
| "get_text_strip (Tag name attrs children) = concat (map get_text_strip children)"

fun find_tag :: "ustr \<Rightarrow> node \<Rightarrow> node option" and
    find_tags :: "ustr \<Rightarrow> node list \<Rightarrow> node option" where
  "find_tag key (Text s) = None"
| "find_tag key (Tag name attrs children) =
     (if name = key then Some (Tag name attrs children) else find_tags key children)"
| "find_tags key [] = None"
| "find_tags key (c # cs) =
     (case find_tag key c of Some t \<Rightarrow> Some t | None \<Rightarrow> find_tags key cs)"

fun find_in :: "node \<Rightarrow> ustr \<Rightarrow> node option" where
  "find_in (Text s) key = None"
| "find_in (Tag name attrs children) key = find_tags key children"

definition select_one :: "env \<Rightarrow> ustr \<Rightarrow> node \<Rightarrow> py_exc + node option" where
  "select_one w sel nd =
     and_then (css_select w sel nd) (\<lambda>found. Inr (case found of [] \<Rightarrow> None | n # ns \<Rightarrow> Some n))"

text \<open>\<open>_fetch_url(url)\<close> followed by \<open>resp.raise_for_status()\<close>.\<close>

definition get_ok :: "env \<Rightarrow> ustr \<Rightarrow> py_exc + response" where
  "get_ok w url =
     and_then (fetch_url w url)
       (\<lambda>resp. case status_error resp of Some exc \<Rightarrow> Inl exc | None \<Rightarrow> Inr resp)"

section \<open>The fetchers\<close>

text \<open>
  \<open>_fetch_rss\<close>. The loop over the URLs, with \<open>entries\<close> as its state: the body of the
  \<open>try\<close> for one URL, an exception moving on to the next URL, a non-empty list ending the
  loop. Then one item for each entry.
\<close>

definition try_feed :: "env \<Rightarrow> ustr \<Rightarrow> py_exc + entry list" where
  "try_feed w url =
     and_then (get_ok w url)
       (\<lambda>resp. and_then (feedparser_parse w (content resp))
          (\<lambda>feed_entries. Inr (take MAX_ITEMS_PER_SOURCE feed_entries)))"

fun rss_loop :: "env \<Rightarrow> ustr list \<Rightarrow> entry list \<Rightarrow> entry list" where
  "rss_loop w [] entries = entries"
| "rss_loop w (url # urls) entries =
     (case try_feed w url of
        Inl exc \<Rightarrow> rss_loop w urls entries
      | Inr found \<Rightarrow> if found \<noteq> [] then found else rss_loop w urls found)"

definition get_or :: "'a option \<Rightarrow> 'a \<Rightarrow> 'a" where
  "get_or v dflt = (case v of None \<Rightarrow> dflt | Some x \<Rightarrow> x)"

definition rss_item :: "env \<Rightarrow> source_config \<Rightarrow> entry \<Rightarrow> news_item" where
  "rss_item w src e =
     (let pub = (case e_published e of Some p \<Rightarrow> p
                 | None \<Rightarrow> (case e_updated e of Some u \<Rightarrow> u | None \<Rightarrow> []))
      in \<lparr>category = src_category src,
          title = clean w (get_or (e_title e) []),
          summary = truncate (clean w (get_or (e_summary e) (get_or (e_description e) []))) 500,
          source = src_name src,
          link = get_or (e_link e) [],
          time = pub,
          dt = None\<rparr>)"

definition fetch_rss :: "env \<Rightarrow> source_config \<Rightarrow> news_item list" where
  "fetch_rss w src =
     (let urls = [src_url src] @ get_or (src_alt_urls src) [];
          entries = rss_loop w urls []
      in map (rss_item w src) entries)"

text \<open>
  \<open>_fetch_scrape\<close>. One article gives an item, or nothing when it has no title
  (\<open>continue\<close>); an exception ends the fetch.
\<close>

definition strip_char :: "nat \<Rightarrow> ustr \<Rightarrow> ustr" where
  "strip_char c s = dropWhile (\<lambda>x. x = c) s"

definition scrape_article ::
  "env \<Rightarrow> source_config \<Rightarrow> selectors \<Rightarrow> node \<Rightarrow> py_exc + news_item option" where
  "scrape_article w src sel art =
     and_then (if tag_name art \<noteq> ustr_of ''a'' then select_one w (sel_title sel) art
               else Inr (Some art))
     (\<lambda>title_el.
        let ttl = (case title_el of Some el \<Rightarrow> clean w (get_text el) | None \<Rightarrow> [])
        in if ttl = [] then Inr None
        else
          let href =
                (case title_el of
                   None \<Rightarrow> []
                 | Some el \<Rightarrow>
                     if tag_name el = ustr_of ''a'' then attr el (ustr_of ''href'') []
                     else (case find_in el (ustr_of ''a'') of
                             Some a \<Rightarrow> attr a (ustr_of ''href'') []
                           | None \<Rightarrow> []));
              lnk =
                (if href \<noteq> [] \<and> \<not> prefix (ustr_of ''http'') href
                 then rev (strip_char 47 (rev (src_url src))) @ [47] @ strip_char 47 href
                 else href)
          in and_then (if tag_name art \<noteq> ustr_of ''a'' then select_one w (sel_summary sel) art
                       else Inr None)
             (\<lambda>summary_el.
                let summ = (case summary_el of
                              Some el \<Rightarrow> truncate (clean w (get_text el)) 500
                            | None \<Rightarrow> [])
                in and_then (if tag_name art \<noteq> ustr_of ''a'' then select_one w (sel_time sel) art
                             else Inr None)
                   (\<lambda>time_el.
                      let pub_time = (case time_el of
                                        Some el \<Rightarrow> clean w (get_text el)
                                      | None \<Rightarrow> [])
                      in Inr (Some \<lparr>category = src_category src,
                                    title = truncate ttl 80,
                                    summary = summ,
                                    source = src_name src,
                                    link = lnk,
                                    time = pub_time,
                                    dt = None\<rparr>))))"

text \<open>A \<open>for\<close> loop that appends what each element gives, until an exception.\<close>

fun collect :: "('a \<Rightarrow> py_exc + news_item option) \<Rightarrow> 'a list \<Rightarrow> py_exc + news_item list" where
  "collect f [] = Inr []"
| "collect f (x # xs) =
     and_then (f x)
       (\<lambda>r. and_then (collect f xs)
          (\<lambda>results. Inr (case r of None \<Rightarrow> results | Some n \<Rightarrow> n # results)))"

definition fetch_scrape :: "env \<Rightarrow> source_config \<Rightarrow> py_exc + news_item list" where
  "fetch_scrape w src =
     and_then (get_ok w (src_url src))
     (\<lambda>resp. and_then (parse_html w (content resp))
     (\<lambda>soup. case src_selectors src of
        None \<Rightarrow> Inl KeyError
      | Some sel \<Rightarrow>
          and_then (css_select w (sel_article sel) soup)
          (\<lambda>found.
             and_then (if take MAX_ITEMS_PER_SOURCE found = []
                       then and_then (css_select w (ustr_of ''a[href]'') soup)
                              (\<lambda>links. Inr (take MAX_ITEMS_PER_SOURCE
                                               (filter (\<lambda>a. get_text_strip a \<noteq> []) links)))
                       else Inr (take MAX_ITEMS_PER_SOURCE found))
             (\<lambda>articles. collect (scrape_article w src sel) articles))))"

text \<open>
  \<open>_fetch_cls_api\<close>. \<open>time.strftime(..., time.localtime(ctime))\<close> is the library's, for
  a number; any other true value raises \<open>TypeError\<close>.
\<close>

definition local_time_string :: "env \<Rightarrow> json \<Rightarrow> py_exc + ustr" where
  "local_time_string w ctime =
     (case ctime of
        JNum x \<Rightarrow> localtime_strftime w x
      | JBool b \<Rightarrow> localtime_strftime w (if b then 1 else 0)
      | _ \<Rightarrow> Inl TypeError)"

definition cls_item :: "env \<Rightarrow> source_config \<Rightarrow> json \<Rightarrow> py_exc + news_item option" where
  "cls_item w src item =
     and_then (dict_get item (ustr_of ''content'') (JStr []))
     (\<lambda>raw_content. and_then (clean_json w raw_content)
     (\<lambda>content_text. and_then (dict_get item (ustr_of ''title'') (JStr []))
     (\<lambda>raw_title. and_then (clean_json w raw_title)
     (\<lambda>ttl. and_then (dict_get item (ustr_of ''depth_extends'') JNull)
     (\<lambda>raw_depth.
        let depth = (if truthy raw_depth then raw_depth else JDict [])
        in and_then (case depth of
                       JDict kvs \<Rightarrow>
                         and_then (dict_get depth (ustr_of ''title'') (JStr [])) (clean_json w)
                     | _ \<Rightarrow> Inr [])
     (\<lambda>depth_title. and_then (dict_get item (ustr_of ''shareurl'') (JStr []))
     (\<lambda>lnk. and_then (dict_get item (ustr_of ''ctime'') (JNum 0))
     (\<lambda>ctime. and_then (if truthy ctime then local_time_string w ctime else Inr [])
     (\<lambda>pub_time.
        let display_title =
              (if depth_title \<noteq> [] then depth_title
               else if ttl \<noteq> [] then ttl else take 60 content_text)
        in if display_title = [] then Inr None
           else
             let summ = (if content_text \<noteq> display_title then truncate content_text 500
                         else [])
             in Inr (Some \<lparr>category = src_category src,
                           title = truncate display_title 80,
                           summary = summ,
                           source = src_name src,
                           link = json_text lnk,
                           time = pub_time,
                           dt = None\<rparr>))))))))))"

definition fetch_cls_api :: "env \<Rightarrow> source_config \<Rightarrow> py_exc + news_item list" where
  "fetch_cls_api w src =
     and_then (get_ok w (src_url src))
     (\<lambda>resp. and_then (json_loads w (content resp))
     (\<lambda>data. and_then (dict_get data (ustr_of ''data'') (JDict []))
     (\<lambda>inner. and_then (dict_get inner (ustr_of ''roll_data'') (JList []))
     (\<lambda>roll_data. and_then (py_iter roll_data)
     (\<lambda>roll_items. collect (cls_item w src) roll_items)))))"

text \<open>
  \<open>fetch_source\<close>: the \<open>try\<close> around the three strategies, and its \<open>except Exception\<close>
  clause, which returns the empty list.
\<close>

definition fetch_by_method :: "env \<Rightarrow> source_config \<Rightarrow> py_exc + news_item list" where
  "fetch_by_method w src =
     (if src_method src = ustr_of ''rss'' then Inr (fetch_rss w src)
      else if src_method src = ustr_of ''cls_api'' then fetch_cls_api w src
      else fetch_scrape w src)"

definition fetch_source :: "env \<Rightarrow> source_config \<Rightarrow> py_exc + news_item list" where
  "fetch_source w src =
     (case fetch_by_method w src of Inl exc \<Rightarrow> Inr [] | Inr items \<Rightarrow> Inr items)"

section \<open>The time normalizer\<close>

text \<open>
  The proleptic Gregorian calendar of \<open>datetime\<close>, and the constructor
  \<open>datetime(year, month, day, tzinfo=...)\<close>, which raises \<open>ValueError\<close> out of range.
\<close>

definition is_leap :: "nat \<Rightarrow> bool" where
  "is_leap y \<longleftrightarrow> y mod 4 = 0 \<and> (y mod 100 \<noteq> 0 \<or> y mod 400 = 0)"

definition days_in_month :: "nat \<Rightarrow> nat \<Rightarrow> nat" where
  "days_in_month y m =
     (if m = 2 then (if is_leap y then 29 else 28)
      else if m = 4 \<or> m = 6 \<or> m = 9 \<or> m = 11 then 30 else 31)"

definition days_before_year :: "nat \<Rightarrow> nat" where
  "days_before_year y = (y - 1) * 365 + (y - 1) div 4 - (y - 1) div 100 + (y - 1) div 400"

definition days_before_month :: "nat \<Rightarrow> nat \<Rightarrow> nat" where
  "days_before_month y m = sum_list (map (days_in_month y) [1..<m])"

definition new_datetime :: "nat \<Rightarrow> nat \<Rightarrow> nat \<Rightarrow> int option \<Rightarrow> py_exc + datetime" where
  "new_datetime y m d tz =
     (if y < 1 \<or> y > 9999 \<or> m < 1 \<or> m > 12 \<or> d < 1 \<or> d > days_in_month y m
      then Inl ValueError
      else Inr \<lparr>wall_us = days (int (days_before_year y + days_before_month y m + d) - 1),
                tzinfo = tz\<rparr>)"

text \<open>\<open>dt.replace(hour=h, minute=m)\<close>: \<open>ValueError\<close> unless \<open>h < 24\<close> and \<open>m < 60\<close>.\<close>

definition replace_hour_minute :: "datetime \<Rightarrow> nat \<Rightarrow> nat \<Rightarrow> py_exc + datetime" where
  "replace_hour_minute d h m =
     (if h > 23 \<or> m > 59 then Inl ValueError
      else Inr (d\<lparr>wall_us := days (wall_us d div 86400000000) + int h * 3600000000 +
                   int m * 60000000 + wall_us d mod 60000000\<rparr>))"

text \<open>\<open>if dt.tzinfo is None: dt = dt.replace(tzinfo=timezone.utc)\<close>.\<close>

definition assume_utc :: "datetime \<Rightarrow> datetime" where
  "assume_utc d = (if tzinfo d = None then d\<lparr>tzinfo := Some 0\<rparr> else d)"

definition TIME_FORMATS :: "ustr list" where
  "TIME_FORMATS = map ustr_of
     [''%Y-%m-%d %H:%M'', ''%Y-%m-%d %H:%M:%S'', ''%Y-%m-%dT%H:%M:%S'',
      ''%Y-%m-%dT%H:%M:%SZ'', ''%Y-%m-%dT%H:%M:%S%z'', ''%b %d, %Y'', ''%B %d, %Y'',
      ''%d %b %Y'', ''%d %B %Y'', ''%Y/%m/%d %H:%M'']"

text \<open>
  The loop over the formats: \<open>except ValueError: continue\<close>; any other exception of
  \<open>strptime\<close> leaves the function.
\<close>

fun try_formats :: "env \<Rightarrow> ustr \<Rightarrow> ustr list \<Rightarrow> py_exc + datetime option" where
  "try_formats w time_str [] = Inr None"
| "try_formats w time_str (fmt # fmts) =
     (case strptime w time_str fmt of
        Inr d \<Rightarrow> Inr (Some (assume_utc d))
      | Inl exc \<Rightarrow> if exc = ValueError then try_formats w time_str fmts else Inl exc)"

text \<open>
  The regex class \<open>\d\<close> on a \<open>str\<close> pattern is a Unicode decimal digit, and \<open>int\<close>
  reads all of them: the ASCII digits are here, the others are the Unicode database's.
\<close>

definition digit_value :: "env \<Rightarrow> nat \<Rightarrow> nat option" where
  "digit_value w c =
     (if 48 \<le> c \<and> c \<le> 57 then Some (c - 48) else if c < 128 then None else ucd_decimal w c)"

definition is_digit :: "env \<Rightarrow> nat \<Rightarrow> bool" where
  "is_digit w c \<longleftrightarrow> digit_value w c \<noteq> None"

definition to_int :: "env \<Rightarrow> ustr \<Rightarrow> nat" where
  "to_int w ds = foldl (\<lambda>acc c. 10 * acc + (case digit_value w c of None \<Rightarrow> 0 | Some v \<Rightarrow> v)) 0 ds"

text \<open>
  \<open>re.search(r"(\d{4})[\<dots>\-/](\d{1,2})[\<dots>\-/](\d{1,2})", time_str)\<close>, the separators being
  \<open>-\<close>, \<open>/\<close> and the signs for year (U+5E74) and month (U+6708): the match at the head of a
  string, with the greedy groups of one or two digits, and the leftmost match of a string.
\<close>

definition match_month_day :: "env \<Rightarrow> ustr \<Rightarrow> (nat \<times> nat) option" where
  "match_month_day w r =
     (let sep = (\<lambda>c. c = 26376 \<or> c = 45 \<or> c = 47);
          day = (\<lambda>ds. to_int w (take 2 (takeWhile (is_digit w) ds)))
      in if length r \<ge> 4 \<and> is_digit w (r ! 0) \<and> is_digit w (r ! 1) \<and> sep (r ! 2) \<and>
            is_digit w (r ! 3)
         then Some (to_int w (take 2 r), day (drop 3 r))
         else if length r \<ge> 3 \<and> is_digit w (r ! 0) \<and> sep (r ! 1) \<and> is_digit w (r ! 2)
         then Some (to_int w (take 1 r), day (drop 2 r))
         else None)"

definition match_date :: "env \<Rightarrow> ustr \<Rightarrow> (nat \<times> nat \<times> nat) option" where
  "match_date w s =
     (if length s \<ge> 5 \<and> list_all (is_digit w) (take 4 s) \<and>
         (s ! 4 = 24180 \<or> s ! 4 = 45 \<or> s ! 4 = 47)
      then (case match_month_day w (drop 5 s) of
              None \<Rightarrow> None
            | Some (m, d) \<Rightarrow> Some (to_int w (take 4 s), m, d))
      else None)"

fun search_date :: "env \<Rightarrow> ustr \<Rightarrow> (nat \<times> nat \<times> nat) option" where
  "search_date w [] = None"
| "search_date w (c # cs) =
     (case match_date w (c # cs) of Some r \<Rightarrow> Some r | None \<Rightarrow> search_date w cs)"

text \<open>\<open>re.search(r"(\d{1,2}):(\d{2})", time_str)\<close>.\<close>

definition match_hm :: "env \<Rightarrow> ustr \<Rightarrow> (nat \<times> nat) option" where
  "match_hm w s =
     (if length s \<ge> 5 \<and> is_digit w (s ! 0) \<and> is_digit w (s ! 1) \<and> s ! 2 = 58 \<and>
         is_digit w (s ! 3) \<and> is_digit w (s ! 4)
      then Some (to_int w (take 2 s), to_int w (take 2 (drop 3 s)))
      else if length s \<ge> 4 \<and> is_digit w (s ! 0) \<and> s ! 1 = 58 \<and> is_digit w (s ! 2) \<and>
              is_digit w (s ! 3)
      then Some (to_int w (take 1 s), to_int w (take 2 (drop 2 s)))
      else None)"

fun search_hm :: "env \<Rightarrow> ustr \<Rightarrow> (nat \<times> nat) option" where
  "search_hm w [] = None"
| "search_hm w (c # cs) =
     (case match_hm w (c # cs) of Some r \<Rightarrow> Some r | None \<Rightarrow> search_hm w cs)"

text \<open>The third tier: the body of its \<open>try\<close>, and \<open>except ValueError: pass\<close>.\<close>

definition date_from_match :: "env \<Rightarrow> ustr \<Rightarrow> nat \<times> nat \<times> nat \<Rightarrow> py_exc + datetime" where
  "date_from_match w time_str ymd =
     (case ymd of (y, m, d) \<Rightarrow>
        and_then (new_datetime y m d (Some 0))
          (\<lambda>d0. case search_hm w time_str of
                   None \<Rightarrow> Inr d0
                 | Some (h, mi) \<Rightarrow> replace_hour_minute d0 h mi))"

text \<open>\<open>_parse_time(time_str)\<close>.\<close>

definition parse_time :: "env \<Rightarrow> ustr \<Rightarrow> py_exc + datetime option" where
  "parse_time w raw =
     (if raw = [] then Inr None
      else
        let time_str = strip raw
        in case parsedate_to_datetime w time_str of
             Inr d \<Rightarrow> Inr (Some (assume_utc d))
           | Inl exc \<Rightarrow>
               (case try_formats w time_str TIME_FORMATS of
                  Inl exc \<Rightarrow> Inl exc
                | Inr (Some d) \<Rightarrow> Inr (Some d)
                | Inr None \<Rightarrow>
                    (case search_date w time_str of
                       None \<Rightarrow> Inr None
                     | Some ymd \<Rightarrow>
                         (case date_from_match w time_str ymd of
                            Inr d \<Rightarrow> Inr (Some d)
                          | Inl exc \<Rightarrow> if exc = ValueError then Inr None else Inl exc))))"

section \<open>The aggregator: per-source cap\<close>

text \<open>
  The loop of \<open>fetch_all\<close> over \<open>filtered\<close>: the dict \<open>source_count\<close> and the list
  \<open>limited\<close> are the loop's state.
\<close>

fun cap_loop :: "(ustr \<rightharpoonup> nat) \<Rightarrow> news_item list \<Rightarrow> news_item list \<Rightarrow> news_item list" where
  "cap_loop source_count limited [] = limited"
| "cap_loop source_count limited (n # ns) =
     (let src = source n;
          c = (case source_count src of None \<Rightarrow> 0 | Some k \<Rightarrow> k) + 1;
          source_count' = source_count(src \<mapsto> c)
      in if c \<le> MAX_ITEMS_PER_SOURCE
         then cap_loop source_count' (limited @ [n]) ns
         else cap_loop source_count' limited ns)"

definition per_source_cap :: "news_item list \<Rightarrow> news_item list" where
  "per_source_cap filtered = cap_loop Map.empty [] filtered"

section \<open>The enricher's selection\<close>

text \<open>
  \<open>need_enrich\<close> of \<open>fetch_all\<close>, and the update of the selected items: the page's
  description (\<open>_fetch_og_description\<close>, which catches every exception and returns a
  string) replaces the summary when it is longer.
\<close>

definition needs_enrich :: "env \<Rightarrow> news_item \<Rightarrow> bool" where
  "needs_enrich w n \<longleftrightarrow> is_summary_useless w (title n) (summary n) \<and> link n \<noteq> []"

definition need_enrich :: "env \<Rightarrow> news_item list \<Rightarrow> news_item list" where
  "need_enrich w filtered = filter (needs_enrich w) filtered"

definition enrich_item :: "env \<Rightarrow> news_item \<Rightarrow> news_item" where
  "enrich_item w n =
     (let desc = og_description w (link n)
      in if desc \<noteq> [] \<and> length desc > length (summary n)
         then n\<lparr>summary := truncate desc 500\<rparr> else n)"

definition enrich :: "env \<Rightarrow> news_item list \<Rightarrow> news_item list" where
  "enrich w filtered = map (\<lambda>n. if needs_enrich w n then enrich_item w n else n) filtered"

section \<open>The translator\<close>

text \<open>The candidates: index and summary of every item with a non-empty, non-Chinese summary.\<close>

definition to_translate :: "news_item list \<Rightarrow> (nat \<times> ustr) list" where
  "to_translate items =
     filter (\<lambda>(i, summ). summ \<noteq> [] \<and> \<not> is_chinese summ) (enumerate 0 (map summary items))"

text \<open>
  The batching loop of \<open>_translate_summaries\<close> with its state \<open>batch_texts\<close>,
  \<open>batch_indices\<close>, \<open>batch_char_count\<close>, and the state \<open>st\<close> that \<open>_flush_batch\<close> acts on;
  the call of \<open>_flush_batch\<close> after the loop is the last step.
\<close>

fun batch_loop ::
  "(nat list \<Rightarrow> ustr list \<Rightarrow> 's \<Rightarrow> 's) \<Rightarrow> (nat \<times> ustr) list \<Rightarrow>
   ustr list \<Rightarrow> nat list \<Rightarrow> nat \<Rightarrow> 's \<Rightarrow> 's" where
  "batch_loop flush [] batch_texts batch_indices batch_char_count st =
     flush batch_indices batch_texts st"
| "batch_loop flush ((idx, text) # rest) batch_texts batch_indices batch_char_count st =
     (if batch_char_count + length text > 4500 \<and> batch_texts \<noteq> []
      then batch_loop flush rest [text] [idx] (length text)
             (flush batch_indices batch_texts st)
      else batch_loop flush rest (batch_texts @ [text]) (batch_indices @ [idx])
             (batch_char_count + length text) st)"

text \<open>
  \<open>_flush_batch\<close> on the items: one call of the translator, whose results overwrite the
  summaries; an exception inside the \<open>try\<close> leaves the remaining items as they are.
\<close>

fun store_results :: "(nat \<times> ustr option) list \<Rightarrow> news_item list \<Rightarrow> news_item list" where
  "store_results [] items = items"
| "store_results ((idx, result) # rest) items =
     (case result of
        None \<Rightarrow> store_results rest items
      | Some r \<Rightarrow>
          if r \<noteq> [] \<and> length r > 10
          then (if idx < length items
                then store_results rest (items[idx := (items ! idx)\<lparr>summary := truncate r 500\<rparr>])
                else items)
          else store_results rest items)"

definition flush_batch :: "env \<Rightarrow> nat list \<Rightarrow> ustr list \<Rightarrow> news_item list \<Rightarrow> news_item list" where
  "flush_batch w batch_indices batch_texts items =
     (if batch_texts = [] then items
      else case translate_batch w batch_texts of
             Inl exc \<Rightarrow> items
           | Inr results \<Rightarrow> store_results (zip batch_indices results) items)"

definition translate_summaries :: "env \<Rightarrow> news_item list \<Rightarrow> news_item list" where
  "translate_summaries w items =
     (let todo = to_translate items
      in if todo = [] then items else batch_loop (flush_batch w) todo [] [] 0 items)"

text \<open>
  The batches in the order they are flushed: the same loop, with a flush that records the
  batch instead of translating it.
\<close>

definition flush_log ::
  "nat list \<Rightarrow> ustr list \<Rightarrow> (nat list \<times> ustr list) list \<Rightarrow> (nat list \<times> ustr list) list" where
  "flush_log batch_indices batch_texts calls =
     (if batch_texts = [] then calls else calls @ [(batch_indices, batch_texts)])"

definition translate_calls :: "(nat \<times> ustr) list \<Rightarrow> (nat list \<times> ustr list) list" where
  "translate_calls todo = batch_loop flush_log todo [] [] 0 []"

definition batches :: "(nat \<times> ustr) list \<Rightarrow> ustr list list" where
  "batches todo = map snd (translate_calls todo)"

definition batch_chars :: "ustr list \<Rightarrow> nat" where
  "batch_chars batch = sum_list (map length batch)"

text \<open>
  What holds of a batch: it is not empty, and it is within the budget or holds a single
  text. And what holds of two consecutive batches: the first text of the second one did
  not fit into the first.
\<close>

definition batch_ok :: "ustr list \<Rightarrow> bool" where
  "batch_ok b \<longleftrightarrow> b \<noteq> [] \<and> (batch_chars b \<le> 4500 \<or> length b = 1)"

definition overflows :: "ustr list \<Rightarrow> ustr list \<Rightarrow> bool" where
  "overflows b c \<longleftrightarrow> batch_chars b + length (hd c) > 4500"

section \<open>The aggregator: freshness cutoff and sort\<close>

text \<open>\<open>datetime.now(timezone.utc)\<close>, for a clock that reads \<open>now_us\<close>.\<close>

definition utc_now :: "int \<Rightarrow> datetime" where
  "utc_now now_us = \<lparr>wall_us = now_us, tzinfo = Some 0\<rparr>"

text \<open>\<open>datetime - timedelta\<close>: the fields move, the zone stays; out of range it raises.\<close>

definition dt_minus :: "datetime \<Rightarrow> int \<Rightarrow> py_exc + datetime" where
  "dt_minus d delta =
     (let us = wall_us d - delta
      in if us < 0 \<or> us > MAX_US then Inl OverflowError else Inr (d\<lparr>wall_us := us\<rparr>))"

text \<open>
  Comparison of datetimes: two aware values compare by their UTC instants, two naive ones
  by their fields, and a naive with an aware one raises \<open>TypeError\<close>.
\<close>

definition utc_instant :: "datetime \<Rightarrow> int" where
  "utc_instant d = wall_us d - (case tzinfo d of None \<Rightarrow> 0 | Some off \<Rightarrow> off)"

definition dt_ge :: "datetime \<Rightarrow> datetime \<Rightarrow> py_exc + bool" where
  "dt_ge a b =
     (if (tzinfo a = None) = (tzinfo b = None) then Inr (utc_instant a \<ge> utc_instant b)
      else Inl TypeError)"

text \<open>The list comprehension \<open>[n for n in filtered if n["_dt"] is None or n["_dt"] >= cutoff]\<close>.\<close>

fun freshness :: "datetime \<Rightarrow> news_item list \<Rightarrow> py_exc + news_item list" where
  "freshness cutoff [] = Inr []"
| "freshness cutoff (n # ns) =
     (case (case dt n of None \<Rightarrow> Inr True | Some d \<Rightarrow> dt_ge d cutoff) of
        Inl exc \<Rightarrow> Inl exc
      | Inr keep \<Rightarrow>
          (case freshness cutoff ns of
             Inl exc \<Rightarrow> Inl exc
           | Inr rest \<Rightarrow> Inr (if keep then n # rest else rest)))"

text \<open>
  The sort: the key is \<open>n["_dt"] or datetime.min.replace(tzinfo=timezone.utc)\<close> (a
  datetime is always true), and \<open>list.sort(key=..., reverse=True)\<close> is the stable sort
  of the reversed list, reversed. The keys are aware here (the comparison with the aware
  cutoff has succeeded on each), so they compare by their UTC instants.
\<close>

definition datetime_min_utc :: datetime where
  "datetime_min_utc = \<lparr>wall_us = 0, tzinfo = Some 0\<rparr>"

definition sort_key_of :: "news_item \<Rightarrow> datetime" where
  "sort_key_of n = (case dt n of None \<Rightarrow> datetime_min_utc | Some d \<Rightarrow> d)"

definition sort_reverse :: "news_item list \<Rightarrow> news_item list" where
  "sort_reverse items = rev (sort_key (\<lambda>n. utc_instant (sort_key_of n)) (rev items))"

text \<open>
  \<open>fetch_all\<close>. The sources are taken in the order in which their fetches complete
  (\<open>merge_results\<close>); \<open>_matches_keywords\<close> is the search of the compiled pattern
  \<open>_KEYWORD_PATTERN\<close>, the regex engine's, in the title, a space and the summary;
  \<open>before_translation\<close> is the keyword filter, the per-source cap and the enrichment;
  \<open>now_us\<close> is the clock; the loop \<open>n["_dt"] = _parse_time(n.get("time", ""))\<close> is
  \<open>resolve_times\<close>.
\<close>

fun merge_results :: "env \<Rightarrow> source_config list \<Rightarrow> py_exc + news_item list" where
  "merge_results w [] = Inr []"
| "merge_results w (src # srcs) =
     and_then (fetch_source w src)
       (\<lambda>items. and_then (merge_results w srcs) (\<lambda>rest. Inr (items @ rest)))"

definition matches_keywords :: "env \<Rightarrow> news_item \<Rightarrow> bool" where
  "matches_keywords w n = keyword_search w (title n @ [32] @ summary n)"

fun resolve_times :: "env \<Rightarrow> news_item list \<Rightarrow> py_exc + news_item list" where
  "resolve_times w [] = Inr []"
| "resolve_times w (n # ns) =
     and_then (parse_time w (time n))
       (\<lambda>d. and_then (resolve_times w ns) (\<lambda>rest. Inr (n\<lparr>dt := d\<rparr> # rest)))"

definition before_translation :: "env \<Rightarrow> news_item list \<Rightarrow> news_item list" where
  "before_translation w all_news =
     enrich w (per_source_cap (filter (matches_keywords w) all_news))"

definition fetch_all :: "env \<Rightarrow> int \<Rightarrow> source_config list \<Rightarrow> py_exc + news_item list" where
  "fetch_all w now_us sources =
     and_then (merge_results w sources)
     (\<lambda>all_news.
        let filtered = translate_summaries w (before_translation w all_news)
        in and_then (dt_minus (utc_now now_us) two_weeks)
           (\<lambda>cutoff. and_then (resolve_times w filtered)
           (\<lambda>resolved. and_then (freshness cutoff resolved)
           (\<lambda>kept. Inr (sort_reverse kept)))))"

text \<open>
  The resolved times of a list are aware; an item is stale when its resolved time is
  known and older than the cutoff; and the order of the final list: no item with unknown
  time before one with a known time, and known times not increasing.
\<close>

definition aware_items :: "news_item list \<Rightarrow> bool" where
  "aware_items items \<longleftrightarrow> (\<forall>n\<in>set items. \<forall>d. dt n = Some d \<longrightarrow> tzinfo d \<noteq> None)"

definition stale :: "datetime \<Rightarrow> news_item \<Rightarrow> bool" where
  "stale cutoff n \<longleftrightarrow>
     (case dt n of None \<Rightarrow> False | Some d \<Rightarrow> utc_instant d < utc_instant cutoff)"

definition time_order :: "news_item \<Rightarrow> news_item \<Rightarrow> bool" where
  "time_order a b \<longleftrightarrow>
     (case dt b of None \<Rightarrow> True
      | Some y \<Rightarrow> (case dt a of None \<Rightarrow> False | Some x \<Rightarrow> utc_instant y \<le> utc_instant x))"

section \<open>Predicates of the statements\<close>

text \<open>
  A string is cut to \<open>k\<close> characters when it is what \<open>_truncate(raw, k)\<close> returns for
  some text; an item is titled when its title is a non-empty text cut to 80; the
  summaries of a list are capped when none is longer than 501 characters.
\<close>

definition cut :: "nat \<Rightarrow> ustr \<Rightarrow> bool" where
  "cut k s \<longleftrightarrow> (\<exists>raw. s = truncate raw k)"

definition titled :: "news_item \<Rightarrow> bool" where
  "titled n \<longleftrightarrow> (\<exists>raw. raw \<noteq> [] \<and> title n = truncate raw 80)"

definition capped :: "news_item list \<Rightarrow> bool" where
  "capped items \<longleftrightarrow> (\<forall>n\<in>set items. length (summary n) \<le> 501)"

text \<open>
  What the documentation of \<open>datetime.strptime\<close> says: a string that does not match the
  format raises \<open>ValueError\<close>, and nothing else is raised. And a result of the time
  normalizer is aware: \<open>None\<close>, or a datetime with a zone.
\<close>

definition strptime_contract :: "env \<Rightarrow> bool" where
  "strptime_contract w \<longleftrightarrow> (\<forall>s fmt exc. strptime w s fmt = Inl exc \<longrightarrow> exc = ValueError)"

definition aware_result :: "datetime option \<Rightarrow> bool" where
  "aware_result r \<longleftrightarrow> (case r of None \<Rightarrow> True | Some d \<Rightarrow> tzinfo d \<noteq> None)"

text \<open>
  The order of the final list: of two positions, the later one holds a known time only
  if the earlier one does, and then a time that is not later.
\<close>

definition ordered :: "news_item list \<Rightarrow> bool" where
  "ordered out \<longleftrightarrow>
     (\<forall>i j. i < j \<and> j < length out \<longrightarrow>
        (dt (out ! j) \<noteq> None \<longrightarrow> dt (out ! i) \<noteq> None) \<and>
        (\<forall>x y. dt (out ! i) = Some x \<and> dt (out ! j) = Some y \<longrightarrow> utc_instant y \<le> utc_instant x))"

text \<open>
  The count of a source in \<open>source_count\<close>, 0 when the source is not in it.
\<close>

definition seen :: "(ustr \<rightharpoonup> nat) \<Rightarrow> ustr \<Rightarrow> nat" where
  "seen source_count s = (case source_count s of None \<Rightarrow> 0 | Some k \<Rightarrow> k)"

section \<open>Example data\<close>

text \<open>
  A world for the examples. The network is down for one URL and returns the URL as the body
  otherwise. One feed has three entries: one without a title, one whose date is old and
  without a zone, one dated in Chinese. The API returns a payload of three items: one with
  a title of 81 characters and a body of 501, one with nothing, one with a deep-article
  title. The page has one article with a title and one without. The parsers of dates know
  two dates; the translator returns 12 Chinese characters for a text of more than 20.
\<close>

definition feed_entries :: "entry list" where
  "feed_entries =
     [\<lparr>e_title = None, e_summary = Some (ustr_of ''Oil up''), e_description = None,
       e_link = Some (ustr_of ''http://feed/1''),
       e_published = Some (ustr_of ''Sat, 21 Feb 2026 12:00:00 GMT''), e_updated = None\<rparr>,
      \<lparr>e_title = Some (ustr_of ''Brent <b>crude</b>  falls''), e_summary = None,
       e_description = Some (ustr_of ''Brent falls''),
       e_link = Some (ustr_of ''http://feed/2''), e_published = None,
       e_updated = Some (ustr_of ''Sun, 01 Feb 2026 00:00:00 -0000'')\<rparr>,
      \<lparr>e_title = Some (ustr_of ''LNG''), e_summary = None, e_description = None,
       e_link = None,
       e_published = Some (ustr_of ''2026'' @ [24180] @ ustr_of ''2'' @ [26376] @
                           ustr_of ''25'' @ [26085] @ ustr_of '' 08:30''),
       e_updated = None\<rparr>]"

definition api_payload :: json where
  "api_payload =
     JDict [(ustr_of ''data'', JDict [(ustr_of ''roll_data'', JList
       [JDict [(ustr_of ''title'', JStr (replicate 81 97)),
               (ustr_of ''content'', JStr (replicate 501 98)),
               (ustr_of ''shareurl'', JStr (ustr_of ''http://api/1'')),
               (ustr_of ''ctime'', JNum 1772272800)],
        JDict [(ustr_of ''content'', JStr [])],
        JDict [(ustr_of ''content'', JStr (ustr_of ''Gas up'')),
               (ustr_of ''depth_extends'', JDict [(ustr_of ''title'', JStr (ustr_of ''Deep''))])]])])]"

definition page :: node where
  "page =
     Tag (ustr_of ''html'') []
       [Tag (ustr_of ''div'') []
          [Tag (ustr_of ''h4'') []
             [Tag (ustr_of ''a'') [(ustr_of ''href'', ustr_of ''/a/1'')]
                [Text (ustr_of '' Shale  oil '')]],
           Tag (ustr_of ''p'') [] [Text (ustr_of ''Shale summary'')]],
        Tag (ustr_of ''div'') [] [Tag (ustr_of ''p'') [] [Text (ustr_of ''no title'')]]]"

definition example_env :: env where
  "example_env =
     \<lparr>fetch_url = (\<lambda>url. if url = ustr_of ''http://down/'' then Inl RequestException
                         else Inr \<lparr>status_error = None, content = url\<rparr>),
      feedparser_parse = (\<lambda>body. if body = ustr_of ''http://feed/'' then Inr feed_entries
                                  else Inr []),
      parse_html = (\<lambda>body. Inr page),
      css_select = (\<lambda>sel nd.
         if sel = ustr_of ''.item'' then Inr (case nd of Text t \<Rightarrow> [] | Tag nm atts cs \<Rightarrow> cs)
         else if sel = ustr_of ''h4 a''
         then Inr (case find_in nd (ustr_of ''a'') of None \<Rightarrow> [] | Some t \<Rightarrow> [t])
         else if sel = ustr_of ''.excerpt''
         then Inr (case find_in nd (ustr_of ''p'') of None \<Rightarrow> [] | Some t \<Rightarrow> [t])
         else Inr []),
      json_loads = (\<lambda>body. if body = ustr_of ''http://api/'' then Inr api_payload
                            else Inl ValueError),
      localtime_strftime = (\<lambda>t. Inr (ustr_of ''2026-02-28 10:00'')),
      unescape = (\<lambda>s. s),
      ucd_lower = (\<lambda>s i. [s ! i]),
      ucd_decimal = (\<lambda>c. None),
      keyword_search = (\<lambda>s. True),
      og_description = (\<lambda>url. if url = ustr_of ''http://feed/1''
                               then ustr_of ''Oil prices rose on Monday'' else []),
      translate_batch = (\<lambda>texts. Inr (map (\<lambda>t. if length t > 20 then Some (replicate 12 20013)
                                                  else None) texts)),
      parsedate_to_datetime = (\<lambda>s.
         if s = ustr_of ''Sat, 21 Feb 2026 12:00:00 GMT''
         then Inr \<lparr>wall_us = 63907272000000000, tzinfo = Some 0\<rparr>
         else if s = ustr_of ''Sun, 01 Feb 2026 00:00:00 -0000''
         then Inr \<lparr>wall_us = 63905500800000000, tzinfo = None\<rparr>
         else Inl ValueError),
      strptime = (\<lambda>s fmt.
         if s = ustr_of ''2026-02-28 10:00'' \<and> fmt = ustr_of ''%Y-%m-%d %H:%M''
         then Inr \<lparr>wall_us = 63907869600000000, tzinfo = None\<rparr>
         else Inl ValueError)\<rparr>"

definition rss_source :: source_config where
  "rss_source =
     \<lparr>src_name = ustr_of ''Feed'', src_category = ustr_of ''news'', src_method = ustr_of ''rss'',
      src_url = ustr_of ''http://down/'', src_alt_urls = Some [ustr_of ''http://feed/''],
      src_selectors = None\<rparr>"

definition api_source :: source_config where
  "api_source =
     \<lparr>src_name = ustr_of ''Wire'', src_category = ustr_of ''news'',
      src_method = ustr_of ''cls_api'', src_url = ustr_of ''http://api/'', src_alt_urls = None,
      src_selectors = None\<rparr>"

definition scrape_source :: source_config where
  "scrape_source =
     \<lparr>src_name = ustr_of ''Page'', src_category = ustr_of ''news'',
      src_method = ustr_of ''scrape'', src_url = ustr_of ''http://page/'', src_alt_urls = None,
      src_selectors = Some \<lparr>sel_article = ustr_of ''.item'', sel_title = ustr_of ''h4 a'',
                             sel_summary = ustr_of ''.excerpt'', sel_time = ustr_of ''.date''\<rparr>\<rparr>"

definition down_source :: source_config where
  "down_source = scrape_source\<lparr>src_name := ustr_of ''Down'', src_url := ustr_of ''http://down/''\<rparr>"

text \<open>
  The items of the example. The feed gives three, the page one; after the enricher and
  the translator the first one has a new summary; the second one is older than two weeks.
\<close>

definition chinese_date :: ustr where
  "chinese_date =
     ustr_of ''2026'' @ [24180] @ ustr_of ''2'' @ [26376] @ ustr_of ''25'' @ [26085] @
     ustr_of '' 08:30''"

definition oil_item :: news_item where
  "oil_item =
     \<lparr>category = ustr_of ''news'', title = [], summary = ustr_of ''Oil up'',
      source = ustr_of ''Feed'', link = ustr_of ''http://feed/1'',
      time = ustr_of ''Sat, 21 Feb 2026 12:00:00 GMT'', dt = None\<rparr>"

definition brent_item :: news_item where
  "brent_item =
     \<lparr>category = ustr_of ''news'', title = ustr_of ''Brent crude falls'',
      summary = ustr_of ''Brent falls'', source = ustr_of ''Feed'',
      link = ustr_of ''http://feed/2'', time = ustr_of ''Sun, 01 Feb 2026 00:00:00 -0000'',
      dt = None\<rparr>"

definition lng_item :: news_item where
  "lng_item =
     \<lparr>category = ustr_of ''news'', title = ustr_of ''LNG'', summary = [],
      source = ustr_of ''Feed'', link = [], time = chinese_date, dt = None\<rparr>"

definition shale_item :: news_item where
  "shale_item =
     \<lparr>category = ustr_of ''news'', title = ustr_of ''Shale oil'',
      summary = ustr_of ''Shale summary'', source = ustr_of ''Page'',
      link = ustr_of ''http://page/a/1'', time = [], dt = None\<rparr>"

definition feed_items :: "news_item list" where
  "feed_items = [oil_item, brent_item, lng_item]"

definition page_items :: "news_item list" where
  "page_items = [shale_item]"

definition api_items :: "news_item list" where
  "api_items =
     [\<lparr>category = ustr_of ''news'', title = replicate 80 97 @ [8230],
       summary = replicate 500 98 @ [8230], source = ustr_of ''Wire'',
       link = ustr_of ''http://api/1'', time = ustr_of ''2026-02-28 10:00'', dt = None\<rparr>,
      \<lparr>category = ustr_of ''news'', title = ustr_of ''Deep'', summary = ustr_of ''Gas up'',
       source = ustr_of ''Wire'', link = [], time = [], dt = None\<rparr>]"

definition example_sources :: "source_config list" where
  "example_sources = [rss_source, scrape_source, down_source]"

definition enriched_items :: "news_item list" where
  "enriched_items =
     [oil_item\<lparr>summary := ustr_of ''Oil prices rose on Monday''\<rparr>, brent_item, lng_item,
      shale_item]"

definition translated_items :: "news_item list" where
  "translated_items =
     [oil_item\<lparr>summary := replicate 12 20013\<rparr>, brent_item, lng_item, shale_item]"

definition resolved_items :: "news_item list" where
  "resolved_items =
     [oil_item\<lparr>summary := replicate 12 20013,
               dt := Some \<lparr>wall_us = 63907272000000000, tzinfo = Some 0\<rparr>\<rparr>,
      brent_item\<lparr>dt := Some \<lparr>wall_us = 63905500800000000, tzinfo = Some 0\<rparr>\<rparr>,
      lng_item\<lparr>dt := Some \<lparr>wall_us = 63907605000000000, tzinfo = Some 0\<rparr>\<rparr>,
      shale_item]"

definition example_output :: "news_item list" where
  "example_output =
     [lng_item\<lparr>dt := Some \<lparr>wall_us = 63907605000000000, tzinfo = Some 0\<rparr>\<rparr>,
      oil_item\<lparr>summary := replicate 12 20013,
               dt := Some \<lparr>wall_us = 63907272000000000, tzinfo = Some 0\<rparr>\<rparr>,
      shale_item]"

text \<open>Example data: an item of a given source and title, every other field empty.\<close>

definition item_of :: "string \<Rightarrow> string \<Rightarrow> news_item" where
  "item_of src ttl =
     \<lparr>category = [], title = ustr_of ttl, summary = [], source = ustr_of src,
      link = [], time = [], dt = None\<rparr>"

definition eight_of_one_source :: "news_item list" where
  "eight_of_one_source =
     [item_of ''A'' ''1'', item_of ''A'' ''2'', item_of ''B'' ''x'', item_of ''A'' ''3'',
      item_of ''A'' ''4'', item_of ''A'' ''5'', item_of ''B'' ''y'', item_of ''A'' ''6'',
      item_of ''A'' ''7'', item_of ''A'' ''8'']"

text \<open>An item with no title, a summary of 200 characters and a link.\<close>

definition untitled_item :: news_item where
  "untitled_item =
     \<lparr>category = [], title = [], summary = replicate 200 120, source = ustr_of ''A'',
      link = ustr_of ''http://a/1'', time = [], dt = None\<rparr>"

text \<open>Three candidate texts of 4000, 1000 and 3000 characters.\<close>

definition three_texts :: "(nat \<times> ustr) list" where
  "three_texts = [(0, replicate 4000 97), (1, replicate 1000 98), (2, replicate 3000 99)]"

text \<open>
  A clock at 2026-03-01T00:00:00 UTC, and items dated 13 and 15 days before it, and
  undated.
\<close>

definition example_now :: int where
  "example_now = days 739675"

definition dated_item :: "string \<Rightarrow> int \<Rightarrow> news_item" where
  "dated_item ttl us = (item_of ''A'' ttl)\<lparr>dt := Some \<lparr>wall_us = us, tzinfo = Some 0\<rparr>\<rparr>"

definition dated_items :: "news_item list" where
  "dated_items =
     [dated_item ''old'' (example_now - days 15), item_of ''A'' ''undated'',
      dated_item ''recent'' (example_now - days 13), dated_item ''new'' (example_now - days 1)]"

section \<open>Basic facts\<close>

lemma and_then_Inl [simp]: "and_then (Inl exc) f = Inl exc"
  by (simp add: and_then_def)

lemma and_then_Inr [simp]: "and_then (Inr v) f = f v"
  by (simp add: and_then_def)

lemma and_then_eq_Inr: "and_then r f = Inr y \<longleftrightarrow> (\<exists>v. r = Inr v \<and> f v = Inr y)"
  by (cases r) simp_all

lemma and_thenE:
  assumes "and_then r f = Inr y"
  obtains v where "r = Inr v" and "f v = Inr y"
  using assms by (auto simp: and_then_eq_Inr)

lemma truncate_length: "length (truncate t k) \<le> Suc k"
  by (simp add: truncate_def ellipsis_def)

lemma truncate_eq_Nil: "truncate t k = [] \<longleftrightarrow> t = []"
  by (auto simp: truncate_def ellipsis_def)

lemma truncate_Nil: "truncate [] k = []"
  by (simp add: truncate_def)

lemma cut_truncate: "cut k (truncate raw k)"
  by (auto simp: cut_def)

lemma cut_Nil: "cut k []"
  unfolding cut_def by (rule exI [of _ "[]"]) (simp add: truncate_Nil)

lemma cut_length: "cut k s \<Longrightarrow> length s \<le> Suc k"
  by (auto simp: cut_def truncate_length)

lemma collect_Some:
  "collect f xs = Inr items \<Longrightarrow> n \<in> set items \<Longrightarrow> \<exists>x\<in>set xs. f x = Inr (Some n)"
proof (induction xs arbitrary: items)
  case Nil
  then show ?case by simp
next
  case (Cons x xs)
  from Cons.prems(1) obtain r results where
    r: "f x = Inr r" and rest: "collect f xs = Inr results"
    and items: "items = (case r of None \<Rightarrow> results | Some m \<Rightarrow> m # results)"
    by (auto simp: and_then_eq_Inr)
  show ?case
  proof (cases "n \<in> set results")
    case True
    with Cons.IH [OF rest] show ?thesis by auto
  next
    case False
    with Cons.prems(2) items r show ?thesis
      by (cases r) auto
  qed
qed

lemma ustr_of_eq [simp]: "ustr_of a = ustr_of b \<longleftrightarrow> a = b"
  by (simp add: ustr_of_def inj_map_eq_map [OF inj_of_char])

lemma ustr_of_Nil [simp]: "ustr_of s = [] \<longleftrightarrow> s = []" "[] = ustr_of s \<longleftrightarrow> s = []"
  by (auto simp: ustr_of_def)

lemma ustr_of_length [simp]: "length (ustr_of s) = length s"
  by (simp add: ustr_of_def)

lemma clean_plain:
  assumes "unescape w s = s" and "60 \<notin> set s" and "\<forall>c\<in>set s. \<not> is_space c"
  shows "clean w s = s"
proof -
  have st: "strip_tags t = t" if "60 \<notin> set t" for t
    using that by (induction t) auto
  have cw: "collapse_ws t = t" if "\<forall>c\<in>set t. \<not> is_space c" for t
    using that by (induction t) auto
  have dw: "dropWhile is_space t = t" if "\<forall>c\<in>set t. \<not> is_space c" for t
    using that by (cases t) auto
  have "strip s = s"
    using assms(3) dw [of s] dw [of "rev s"] by (simp add: strip_def lstrip_def rstrip_def)
  with assms st cw show ?thesis by (simp add: clean_def)
qed

section \<open>What the fetchers return\<close>

lemma cls_item_item:
  assumes "cls_item w src item = Inr (Some n)"
  shows "(\<exists>raw. raw \<noteq> [] \<and> title n = truncate raw 80) \<and> cut 500 (summary n)"
proof -
  from assms obtain content_text ttl depth_title lnk pub_time where
    body: "(let display_title =
              (if depth_title \<noteq> [] then depth_title
               else if ttl \<noteq> [] then ttl else take 60 content_text)
        in if display_title = [] then Inr None
           else
             let summ = (if content_text \<noteq> display_title then truncate content_text 500
                         else [])
             in Inr (Some \<lparr>category = src_category src,
                           title = truncate display_title 80,
                           summary = summ,
                           source = src_name src,
                           link = json_text lnk,
                           time = pub_time,
                           dt = None\<rparr>)) = (Inr (Some n) :: py_exc + news_item option)"
    unfolding cls_item_def
    apply (elim and_thenE)
    apply (simp only: Let_def)
    apply (elim and_thenE)
    apply blast
    done
  define display_title where "display_title =
    (if depth_title \<noteq> [] then depth_title else if ttl \<noteq> [] then ttl else take 60 content_text)"
  from body have ne: "display_title \<noteq> []"
    and n: "n = \<lparr>category = src_category src, title = truncate display_title 80,
        summary = (if content_text \<noteq> display_title then truncate content_text 500 else []),
        source = src_name src, link = json_text lnk, time = pub_time, dt = None\<rparr>"
    unfolding display_title_def [symmetric] Let_def
    by (simp_all split: if_splits)
  from n have "title n = truncate display_title 80" by simp
  with ne have t: "\<exists>raw. raw \<noteq> [] \<and> title n = truncate raw 80" by blast
  from n have "cut 500 (summary n)"
    by (simp add: cut_truncate cut_Nil)
  with t show ?thesis by simp
qed

lemma scrape_article_item:
  assumes "scrape_article w src sel art = Inr (Some n)"
  shows "(\<exists>raw. raw \<noteq> [] \<and> title n = truncate raw 80) \<and> cut 500 (summary n)"
proof -
  from assms obtain title_el where
    body: "(let ttl = (case title_el of Some el \<Rightarrow> clean w (get_text el) | None \<Rightarrow> [])
        in if ttl = [] then Inr None
        else
          let href =
                (case title_el of
                   None \<Rightarrow> []
                 | Some el \<Rightarrow>
                     if tag_name el = ustr_of ''a'' then attr el (ustr_of ''href'') []
                     else (case find_in el (ustr_of ''a'') of
                             Some a \<Rightarrow> attr a (ustr_of ''href'') []
                           | None \<Rightarrow> []));
              lnk =
                (if href \<noteq> [] \<and> \<not> prefix (ustr_of ''http'') href
                 then rev (strip_char 47 (rev (src_url src))) @ [47] @ strip_char 47 href
                 else href)
          in and_then (if tag_name art \<noteq> ustr_of ''a'' then select_one w (sel_summary sel) art
                       else Inr None)
             (\<lambda>summary_el.
                let summ = (case summary_el of
                              Some el \<Rightarrow> truncate (clean w (get_text el)) 500
                            | None \<Rightarrow> [])
                in and_then (if tag_name art \<noteq> ustr_of ''a'' then select_one w (sel_time sel) art
                             else Inr None)
                   (\<lambda>time_el.
                      let pub_time = (case time_el of
                                        Some el \<Rightarrow> clean w (get_text el)
                                      | None \<Rightarrow> [])
                      in Inr (Some \<lparr>category = src_category src,
                                    title = truncate ttl 80,
                                    summary = summ,
                                    source = src_name src,
                                    link = lnk,
                                    time = pub_time,
                                    dt = None\<rparr>)))) = (Inr (Some n) :: py_exc + news_item option)"
    unfolding scrape_article_def by (elim and_thenE) blast
  define ttl where "ttl = (case title_el of Some el \<Rightarrow> clean w (get_text el) | None \<Rightarrow> [])"
  from body have ne: "ttl \<noteq> []"
    unfolding ttl_def [symmetric] Let_def by (simp split: if_split_asm)
  with body obtain lnk summary_el pub_time where
    n: "n = \<lparr>category = src_category src, title = truncate ttl 80,
        summary = (case summary_el of Some el \<Rightarrow> truncate (clean w (get_text el)) 500
                   | None \<Rightarrow> []),
        source = src_name src, link = lnk, time = pub_time, dt = None\<rparr>"
    unfolding ttl_def [symmetric] Let_def
    apply (simp only: if_False)
    apply (elim and_thenE)
    apply (drule sym)
    apply blast
    done
  from n have "title n = truncate ttl 80" by simp
  with ne have t: "\<exists>raw. raw \<noteq> [] \<and> title n = truncate raw 80" by blast
  from n have "cut 500 (summary n)"
    by (cases summary_el) (simp_all add: cut_truncate cut_Nil)
  with t show ?thesis by simp
qed

lemma rss_item_summary: "cut 500 (summary (rss_item w src e))"
  by (simp add: rss_item_def Let_def cut_truncate)

lemma fetch_scrape_item:
  assumes "fetch_scrape w src = Inr items" and "n \<in> set items"
  shows "titled n \<and> cut 500 (summary n)"
proof -
  from assms(1) obtain sel articles where
    "collect (scrape_article w src sel) articles = Inr items"
    unfolding fetch_scrape_def
    apply (elim and_thenE)
    apply (cases "src_selectors src")
     apply simp
    apply simp
    apply (elim and_thenE)
    apply blast
    done
  from collect_Some [OF this assms(2)] obtain art
    where "scrape_article w src sel art = Inr (Some n)" by blast
  from scrape_article_item [OF this] show ?thesis by (simp add: titled_def)
qed

lemma fetch_cls_api_item:
  assumes "fetch_cls_api w src = Inr items" and "n \<in> set items"
  shows "titled n \<and> cut 500 (summary n)"
proof -
  from assms(1) obtain roll_items where
    "collect (cls_item w src) roll_items = Inr items"
    unfolding fetch_cls_api_def by (elim and_thenE) blast
  from collect_Some [OF this assms(2)] obtain item
    where "cls_item w src item = Inr (Some n)" by blast
  from cls_item_item [OF this] show ?thesis by (simp add: titled_def)
qed

lemma fetch_rss_item: "n \<in> set (fetch_rss w src) \<Longrightarrow> cut 500 (summary n)"
  by (auto simp: fetch_rss_def Let_def rss_item_summary)

lemma fetch_source_item:
  assumes "fetch_source w src = Inr items" and "n \<in> set items"
  shows "cut 500 (summary n) \<and> (src_method src \<noteq> ustr_of ''rss'' \<longrightarrow> titled n)"
proof (cases "fetch_by_method w src")
  case (Inl exc)
  with assms show ?thesis by (simp add: fetch_source_def)
next
  case (Inr found)
  with assms(1) have found: "found = items" by (simp add: fetch_source_def)
  consider (rss) "src_method src = ustr_of ''rss''"
    | (api) "src_method src \<noteq> ustr_of ''rss''" "src_method src = ustr_of ''cls_api''"
    | (scrape) "src_method src \<noteq> ustr_of ''rss''" "src_method src \<noteq> ustr_of ''cls_api''"
    by blast
  then show ?thesis
  proof cases
    case rss
    with Inr found have "items = fetch_rss w src" by (simp add: fetch_by_method_def)
    with assms(2) rss show ?thesis by (simp add: fetch_rss_item)
  next
    case api
    with Inr found have "fetch_cls_api w src = Inr items" by (simp add: fetch_by_method_def)
    from fetch_cls_api_item [OF this assms(2)] show ?thesis by simp
  next
    case scrape
    with Inr found have "fetch_scrape w src = Inr items" by (simp add: fetch_by_method_def)
    from fetch_scrape_item [OF this assms(2)] show ?thesis by simp
  qed
qed

lemma fetch_source_capped: "fetch_source w src = Inr items \<Longrightarrow> capped items"
  using fetch_source_item [of w src items] cut_length [of 500]
  by (fastforce simp: capped_def)

lemma fetch_source_returns: "\<exists>items. fetch_source w src = Inr items"
  by (cases "fetch_by_method w src") (simp_all add: fetch_source_def)

lemma scrape_api_titles_not_empty:
  assumes "fetch_source w src = Inr items" and "n \<in> set items"
    and "src_method src \<noteq> ustr_of ''rss''"
  shows "title n \<noteq> []"
proof -
  from fetch_source_item [OF assms(1,2)] assms(3) obtain raw
    where "raw \<noteq> []" and "title n = truncate raw 80" by (auto simp: titled_def)
  then show ?thesis by (simp add: truncate_eq_Nil)
qed

lemma merge_results_returns: "\<exists>all_news. merge_results w srcs = Inr all_news"
proof (induction srcs)
  case Nil
  show ?case by simp
next
  case (Cons src srcs)
  with fetch_source_returns [of w src] show ?case by auto
qed

lemma merge_results_from:
  "merge_results w srcs = Inr all_news \<Longrightarrow> n \<in> set all_news \<Longrightarrow>
   \<exists>src\<in>set srcs. \<exists>items. fetch_source w src = Inr items \<and> n \<in> set items"
proof (induction srcs arbitrary: all_news)
  case Nil
  then show ?case by simp
next
  case (Cons src srcs)
  from Cons.prems(1) obtain items rest where
    items: "fetch_source w src = Inr items" and rest: "merge_results w srcs = Inr rest"
    and all: "all_news = items @ rest"
    by (auto simp: and_then_eq_Inr)
  show ?case
  proof (cases "n \<in> set items")
    case True
    with items show ?thesis by auto
  next
    case False
    with Cons.prems(2) all have "n \<in> set rest" by simp
    from Cons.IH [OF rest this] show ?thesis by auto
  qed
qed

lemma merge_results_capped: "merge_results w srcs = Inr all_news \<Longrightarrow> capped all_news"
  unfolding capped_def
proof
  fix n assume "merge_results w srcs = Inr all_news" "n \<in> set all_news"
  from merge_results_from [OF this] obtain src items
    where "fetch_source w src = Inr items" "n \<in> set items" by blast
  with fetch_source_capped show "length (summary n) \<le> 501" by (auto simp: capped_def)
qed

section \<open>The example world, evaluated\<close>

lemma ex_unescape: "unescape example_env = (\<lambda>s. s)" by (simp add: example_env_def)

lemmas clean_eval = clean_def ex_unescape ustr_of_def strip_def lstrip_def rstrip_def is_space_def

lemma clean_replicate: "clean example_env (replicate k 97) = replicate k 97"
  "clean example_env (replicate k 98) = replicate k 98"
  by (rule clean_plain; simp add: ex_unescape is_space_def)+

lemma clean_short: "clean example_env (ustr_of ''Gas up'') = ustr_of ''Gas up''"
  "clean example_env (ustr_of ''Deep'') = ustr_of ''Deep''"
  by (simp_all add: clean_eval)

lemma try_feed_down: "try_feed example_env (ustr_of ''http://down/'') = Inl RequestException"
  by (simp add: try_feed_def get_ok_def example_env_def)

lemma try_feed_feed: "try_feed example_env (ustr_of ''http://feed/'') = Inr feed_entries"
  by (simp add: try_feed_def get_ok_def example_env_def ustr_of_def MAX_ITEMS_PER_SOURCE_def
      feed_entries_def)

lemma rss_entries: "rss_loop example_env [ustr_of ''http://down/'', ustr_of ''http://feed/''] [] = feed_entries"
  by (simp add: try_feed_down try_feed_feed)

lemma rss_fetch: "fetch_source example_env rss_source = Inr (fetch_rss example_env rss_source)"
  by (simp add: fetch_source_def fetch_by_method_def rss_source_def)

lemma rss_items: "fetch_rss example_env rss_source = feed_items"
proof -
  have "fetch_rss example_env rss_source = map (rss_item example_env rss_source) feed_entries"
    using rss_entries by (simp add: fetch_rss_def rss_source_def get_or_def)
  then show ?thesis
    by (simp add: feed_entries_def feed_items_def oil_item_def brent_item_def lng_item_def
        chinese_date_def rss_item_def get_or_def clean_eval truncate_def rss_source_def)
qed

lemma down_fetch: "fetch_source example_env down_source = Inr []"
  by (simp add: fetch_source_def fetch_by_method_def down_source_def scrape_source_def
      fetch_scrape_def get_ok_def example_env_def ustr_of_def)

lemma ex_css: "css_select example_env sel nd =
    (if sel = ustr_of ''.item'' then Inr (case nd of Text t \<Rightarrow> [] | Tag nm atts cs \<Rightarrow> cs)
         else if sel = ustr_of ''h4 a''
         then Inr (case find_in nd (ustr_of ''a'') of None \<Rightarrow> [] | Some t \<Rightarrow> [t])
         else if sel = ustr_of ''.excerpt''
         then Inr (case find_in nd (ustr_of ''p'') of None \<Rightarrow> [] | Some t \<Rightarrow> [t])
         else Inr [])"
  by (simp add: example_env_def)

lemma article1:
  "scrape_article example_env scrape_source
     \<lparr>sel_article = ustr_of ''.item'', sel_title = ustr_of ''h4 a'',
      sel_summary = ustr_of ''.excerpt'', sel_time = ustr_of ''.date''\<rparr>
     (Tag (ustr_of ''div'') []
          [Tag (ustr_of ''h4'') []
             [Tag (ustr_of ''a'') [(ustr_of ''href'', ustr_of ''/a/1'')]
                [Text (ustr_of '' Shale  oil '')]],
           Tag (ustr_of ''p'') [] [Text (ustr_of ''Shale summary'')]]) = Inr (Some shale_item)"
  by (simp add: scrape_article_def select_one_def ex_css clean_eval Let_def truncate_def
      strip_char_def scrape_source_def shale_item_def)

lemma article2:
  "scrape_article example_env scrape_source
     \<lparr>sel_article = ustr_of ''.item'', sel_title = ustr_of ''h4 a'',
      sel_summary = ustr_of ''.excerpt'', sel_time = ustr_of ''.date''\<rparr>
     (Tag (ustr_of ''div'') [] [Tag (ustr_of ''p'') [] [Text (ustr_of ''no title'')]]) = Inr None"
  by (simp add: scrape_article_def select_one_def ex_css ustr_of_def)

lemma scrape_items: "fetch_source example_env scrape_source = Inr page_items"
proof -
  have get: "get_ok example_env (ustr_of ''http://page/'') =
      Inr \<lparr>status_error = None, content = ustr_of ''http://page/''\<rparr>"
    by (simp add: get_ok_def example_env_def ustr_of_def)
  have soup: "parse_html example_env body = Inr page" for body
    by (simp add: example_env_def)
  have "fetch_scrape example_env scrape_source = Inr page_items"
    unfolding fetch_scrape_def
    apply (simp add: scrape_source_def get soup ex_css MAX_ITEMS_PER_SOURCE_def)
    apply (simp add: page_def article1 [unfolded scrape_source_def] article2 [unfolded scrape_source_def] page_items_def)
    done
  then show ?thesis
    by (simp add: fetch_source_def fetch_by_method_def scrape_source_def ustr_of_def)
qed

lemma ex_strftime: "localtime_strftime example_env t = Inr (ustr_of ''2026-02-28 10:00'')"
  by (simp add: example_env_def)

lemma api_item1:
  "cls_item example_env api_source
     (JDict [(ustr_of ''title'', JStr (replicate 81 97)),
             (ustr_of ''content'', JStr (replicate 501 98)),
             (ustr_of ''shareurl'', JStr (ustr_of ''http://api/1'')),
             (ustr_of ''ctime'', JNum 1772272800)]) = Inr (Some (api_items ! 0))"
  by (simp add: cls_item_def dict_get_def clean_json_def truthy_def clean_replicate
      local_time_string_def ex_strftime truncate_def ellipsis_def json_text_def api_items_def
      api_source_def Let_def)

lemma api_item2:
  "cls_item example_env api_source (JDict [(ustr_of ''content'', JStr [])]) = Inr None"
  by (simp add: cls_item_def dict_get_def clean_json_def truthy_def)

lemma api_item3:
  "cls_item example_env api_source
     (JDict [(ustr_of ''content'', JStr (ustr_of ''Gas up'')),
             (ustr_of ''depth_extends'', JDict [(ustr_of ''title'', JStr (ustr_of ''Deep''))])]) =
   Inr (Some (api_items ! 1))"
  by (simp add: cls_item_def dict_get_def clean_json_def truthy_def clean_short
      truncate_def json_text_def api_items_def api_source_def Let_def)

lemma api_fetch: "fetch_source example_env api_source = Inr api_items"
proof -
  have get: "get_ok example_env (ustr_of ''http://api/'') =
      Inr \<lparr>status_error = None, content = ustr_of ''http://api/''\<rparr>"
    by (simp add: get_ok_def example_env_def)
  have js: "json_loads example_env (ustr_of ''http://api/'') = Inr api_payload"
    by (simp add: example_env_def)
  have "fetch_cls_api example_env api_source = Inr api_items"
    unfolding fetch_cls_api_def
    apply (simp add: api_source_def get js)
    apply (simp add: api_payload_def dict_get_def py_iter_def
      api_item1 [unfolded api_source_def] api_item2 [unfolded api_source_def]
      api_item3 [unfolded api_source_def])
    apply (simp add: api_items_def)
    done
  then show ?thesis
    by (simp add: fetch_source_def fetch_by_method_def api_source_def)
qed


lemma example_merge: "merge_results example_env example_sources = Inr (feed_items @ page_items)"
  by (simp add: example_sources_def rss_fetch rss_items scrape_items down_fetch)

section \<open>The fetchers: titles, lengths, failures\<close>

text \<open>
  C1. The claim: no fetcher returns an item with an empty title. The RSS fetcher does: for
  the feed of the example, whose first entry has no title, \<open>fetch_source\<close> returns the
  item with the empty title. (The scrape and the API fetcher skip such an item:
  \<open>scrape_api_titles_not_empty\<close>.)
\<close>

theorem rss_keeps_untitled_entry:
  "fetch_source example_env rss_source = Inr [oil_item, brent_item, lng_item] \<and>
   title oil_item = []"
  using rss_fetch rss_items by (simp add: feed_items_def oil_item_def)




text \<open>
  C8. \<open>fetch_source\<close> never raises: it returns a list for every world and every source
  configuration, and the empty list whenever the strategy raises: on a network error, on
  an HTTP error status, on a body that is not JSON, on a payload that is not an object,
  on feeds that all fail.
\<close>

theorem fetch_source_never_raises:
  "(\<exists>items. fetch_source w src = Inr items) \<and>
   (\<forall>exc. fetch_by_method w src = Inl exc \<longrightarrow> fetch_source w src = Inr []) \<and>
   (\<forall>exc. src_method src \<noteq> ustr_of ''rss'' \<and> fetch_url w (src_url src) = Inl exc \<longrightarrow>
      fetch_source w src = Inr []) \<and>
   (\<forall>resp exc. src_method src \<noteq> ustr_of ''rss'' \<and> fetch_url w (src_url src) = Inr resp \<and>
      status_error resp = Some exc \<longrightarrow> fetch_source w src = Inr []) \<and>
   (\<forall>resp exc. src_method src = ustr_of ''cls_api'' \<and> get_ok w (src_url src) = Inr resp \<and>
      json_loads w (content resp) = Inl exc \<longrightarrow> fetch_source w src = Inr []) \<and>
   (\<forall>resp data. src_method src = ustr_of ''cls_api'' \<and> get_ok w (src_url src) = Inr resp \<and>
      json_loads w (content resp) = Inr data \<and> (\<forall>kvs. data \<noteq> JDict kvs) \<longrightarrow>
      fetch_source w src = Inr []) \<and>
   (src_method src = ustr_of ''rss'' \<and>
      (\<forall>url\<in>set ([src_url src] @ get_or (src_alt_urls src) []). \<exists>exc. try_feed w url = Inl exc) \<longrightarrow>
      fetch_source w src = Inr [])"
proof -
  have rss_ne: "ustr_of ''cls_api'' \<noteq> ustr_of ''rss''" by simp
  have returns: "\<exists>items. fetch_source w src = Inr items"
    by (rule fetch_source_returns)
  have caught: "\<forall>exc. fetch_by_method w src = Inl exc \<longrightarrow> fetch_source w src = Inr []"
    by (simp add: fetch_source_def)
  have network: "fetch_source w src = Inr []"
    if "src_method src \<noteq> ustr_of ''rss''" "fetch_url w (src_url src) = Inl exc" for exc
    using that
    by (simp add: fetch_source_def fetch_by_method_def fetch_cls_api_def fetch_scrape_def
        get_ok_def)
  have status: "fetch_source w src = Inr []"
    if "src_method src \<noteq> ustr_of ''rss''" "fetch_url w (src_url src) = Inr resp"
      "status_error resp = Some exc" for resp exc
    using that
    by (simp add: fetch_source_def fetch_by_method_def fetch_cls_api_def fetch_scrape_def
        get_ok_def)
  have parse: "fetch_source w src = Inr []"
    if "src_method src = ustr_of ''cls_api''" "get_ok w (src_url src) = Inr resp"
      "json_loads w (content resp) = Inl exc" for resp exc
    using that rss_ne
    by (simp add: fetch_source_def fetch_by_method_def fetch_cls_api_def)
  have shape: "fetch_source w src = Inr []"
    if "src_method src = ustr_of ''cls_api''" "get_ok w (src_url src) = Inr resp"
      "json_loads w (content resp) = Inr data" "\<forall>kvs. data \<noteq> JDict kvs" for resp data
  proof -
    from that(4) have "dict_get data (ustr_of ''data'') (JDict []) = Inl AttributeError"
      by (cases data) (simp_all add: dict_get_def)
    with that rss_ne show ?thesis
      by (simp add: fetch_source_def fetch_by_method_def fetch_cls_api_def)
  qed
  have loop: "rss_loop w urls [] = []" if "\<forall>url\<in>set urls. \<exists>exc. try_feed w url = Inl exc" for urls
    using that by (induction urls) auto
  have feeds: "fetch_source w src = Inr []"
    if "src_method src = ustr_of ''rss''"
      "\<forall>url\<in>set ([src_url src] @ get_or (src_alt_urls src) []). \<exists>exc. try_feed w url = Inl exc"
    using that loop [of "[src_url src] @ get_or (src_alt_urls src) []"]
    by (simp add: fetch_source_def fetch_by_method_def fetch_rss_def)
  from returns caught network status parse shape feeds show ?thesis
    by blast
qed

theorem fetch_source_never_raises_witness:
  "src_method down_source \<noteq> ustr_of ''rss'' \<and>
   fetch_url example_env (src_url down_source) = Inl RequestException \<and>
   fetch_source example_env down_source = Inr []"
proof -
  have m: "src_method down_source \<noteq> ustr_of ''rss''"
    by (simp add: down_source_def scrape_source_def)
  have f: "fetch_url example_env (src_url down_source) = Inl RequestException"
    by (simp add: down_source_def scrape_source_def example_env_def)
  from fetch_source_never_raises [of example_env down_source] m f show ?thesis
    by blast
qed

section \<open>Properties of the per-source cap\<close>

lemma cap_loop_filter:
  "filter (\<lambda>n. source n = s) (cap_loop sc acc xs) =
     filter (\<lambda>n. source n = s) acc @
     take (MAX_ITEMS_PER_SOURCE - seen sc s) (filter (\<lambda>n. source n = s) xs)"
proof (induction xs arbitrary: sc acc)
  case Nil
  show ?case by simp
next
  case (Cons n ns)
  show ?case
  proof (cases "source n = s")
    case True
    then show ?thesis
      using Cons.IH
      by (auto simp: Let_def seen_def Suc_diff_le take_Cons' split: option.splits)
  next
    case False
    then show ?thesis
      using Cons.IH by (auto simp: Let_def seen_def split: option.splits)
  qed
qed

lemma cap_loop_subseq:
  "\<exists>ys. cap_loop sc acc xs = acc @ ys \<and> subseq ys xs"
proof (induction xs arbitrary: sc acc)
  case Nil
  show ?case by simp
next
  case (Cons n ns)
  let ?c = "(case sc (source n) of None \<Rightarrow> 0 | Some k \<Rightarrow> k) + 1"
  let ?sc = "sc(source n \<mapsto> ?c)"
  show ?case
  proof (cases "?c \<le> MAX_ITEMS_PER_SOURCE")
    case True
    from Cons.IH [of ?sc "acc @ [n]"] obtain ys
      where "cap_loop ?sc (acc @ [n]) ns = (acc @ [n]) @ ys" and "subseq ys ns" by blast
    with True have "cap_loop sc acc (n # ns) = acc @ (n # ys) \<and> subseq (n # ys) (n # ns)"
      by (simp add: Let_def)
    then show ?thesis by blast
  next
    case False
    from Cons.IH [of ?sc acc] obtain ys
      where "cap_loop ?sc acc ns = acc @ ys" and "subseq ys ns" by blast
    with False have "cap_loop sc acc (n # ns) = acc @ ys \<and> subseq ys (n # ns)"
      by (simp add: Let_def list_emb_Cons)
    then show ?thesis by blast
  qed
qed

lemma per_source_cap_set: "set (per_source_cap xs) \<subseteq> set xs"
proof -
  from cap_loop_subseq [of Map.empty "[]" xs]
  have "subseq (per_source_cap xs) xs" by (auto simp: per_source_cap_def)
  then show ?thesis by (auto dest: list_emb_set)
qed

text \<open>
  C3. The per-source cap keeps, for every source name, exactly the first 5 items of that
  source in arrival order and drops every later one; what it keeps is a subsequence of
  its input; so a source with 8 items in the filtered list retains exactly 5.
\<close>

theorem per_source_cap_first_five:
  "(\<forall>s. filter (\<lambda>n. source n = s) (per_source_cap xs) =
          take 5 (filter (\<lambda>n. source n = s) xs)) \<and>
   subseq (per_source_cap xs) xs \<and>
   (\<forall>s. length (filter (\<lambda>n. source n = s) xs) = 8 \<longrightarrow>
          length (filter (\<lambda>n. source n = s) (per_source_cap xs)) = 5)"
proof -
  have first: "filter (\<lambda>n. source n = s) (per_source_cap xs) =
      take 5 (filter (\<lambda>n. source n = s) xs)" for s
    using cap_loop_filter [of s Map.empty "[]" xs]
    by (simp add: per_source_cap_def seen_def MAX_ITEMS_PER_SOURCE_def)
  have sub: "subseq (per_source_cap xs) xs"
    using cap_loop_subseq [of Map.empty "[]" xs] by (auto simp: per_source_cap_def)
  from first sub show ?thesis by simp
qed

theorem per_source_cap_first_five_witness:
  "length (filter (\<lambda>n. source n = ustr_of ''A'') eight_of_one_source) = 8 \<and>
   length (filter (\<lambda>n. source n = ustr_of ''A'') (per_source_cap eight_of_one_source)) = 5 \<and>
   map title (per_source_cap eight_of_one_source) =
     map ustr_of [''1'', ''2'', ''x'', ''3'', ''4'', ''5'', ''y'']"
proof -
  have eight: "length (filter (\<lambda>n. source n = ustr_of ''A'') eight_of_one_source) = 8"
    by (simp add: eight_of_one_source_def item_of_def ustr_of_def)
  have titles: "map title (per_source_cap eight_of_one_source) =
      map ustr_of [''1'', ''2'', ''x'', ''3'', ''4'', ''5'', ''y'']"
    by (simp add: eight_of_one_source_def item_of_def ustr_of_def per_source_cap_def
        MAX_ITEMS_PER_SOURCE_def Let_def)
  from per_source_cap_first_five [of eight_of_one_source] eight titles
  show ?thesis by blast
qed

section \<open>The enricher and the translator\<close>

lemma lower_Nil: "lower w [] = []" by (simp add: lower_def)
lemma strip_Nil: "strip [] = []" by (simp add: strip_def lstrip_def rstrip_def)

lemma useless_empty_title: "is_summary_useless w [] summ"
  by (simp add: is_summary_useless_def lower_Nil strip_Nil Let_def)

lemma short_useless: "length summ < 150 \<Longrightarrow> is_summary_useless w ttl summ"
  by (simp add: is_summary_useless_def)

text \<open>
  C10. For an item whose title is the empty string the predicate \<open>_is_summary_useless\<close>
  is true of every summary, also of one of 150 characters or more; such an item is
  selected for enrichment whenever its link is not empty.
\<close>

theorem empty_title_always_useless:
  "is_summary_useless w [] summ \<and>
   (n \<in> set filtered \<and> title n = [] \<and> link n \<noteq> [] \<longrightarrow> n \<in> set (need_enrich w filtered))"
  by (simp add: need_enrich_def needs_enrich_def useless_empty_title)

theorem empty_title_always_useless_witness:
  "150 \<le> length (summary untitled_item) \<and>
   is_summary_useless example_env [] (summary untitled_item) \<and>
   untitled_item \<in> set (need_enrich example_env [item_of ''A'' ''1'', untitled_item]) \<and>
   fetch_source example_env rss_source = Inr feed_items \<and>
   title oil_item = [] \<and> oil_item \<in> set (need_enrich example_env feed_items)"
proof -
  from empty_title_always_useless
    [of example_env "summary untitled_item" untitled_item "[item_of ''A'' ''1'', untitled_item]"]
  have long: "150 \<le> length (summary untitled_item) \<and>
      is_summary_useless example_env [] (summary untitled_item) \<and>
      untitled_item \<in> set (need_enrich example_env [item_of ''A'' ''1'', untitled_item])"
    by (simp add: untitled_item_def)
  have "oil_item \<in> set feed_items \<and> title oil_item = [] \<and> link oil_item \<noteq> []"
    by (simp add: feed_items_def oil_item_def)
  with empty_title_always_useless [of example_env "summary oil_item" oil_item feed_items]
  have "title oil_item = [] \<and> oil_item \<in> set (need_enrich example_env feed_items)"
    by blast
  with long rss_fetch rss_items show ?thesis by simp
qed

lemma capped_subset: "capped xs \<Longrightarrow> set ys \<subseteq> set xs \<Longrightarrow> capped ys"
  by (auto simp: capped_def)

lemma enrich_capped: "capped xs \<Longrightarrow> capped (enrich w xs)"
  using truncate_length [of _ 500]
  by (auto simp: capped_def enrich_def enrich_item_def Let_def)

lemma store_results_capped: "capped items \<Longrightarrow> capped (store_results rs items)"
proof (induction rs arbitrary: items)
  case Nil
  then show ?case by simp
next
  case (Cons p rs)
  obtain idx r where p: "p = (idx, r)" by (cases p)
  have upd: "capped (items[idx := (items ! idx)\<lparr>summary := truncate t 500\<rparr>])" for t
    using Cons.prems truncate_length [of t 500] set_update_subset_insert [of items idx]
    by (fastforce simp: capped_def)
  show ?case
    using Cons.prems Cons.IH upd by (auto simp: p split: option.splits)
qed

lemma flush_batch_capped: "capped items \<Longrightarrow> capped (flush_batch w bi bt items)"
  by (auto simp: flush_batch_def store_results_capped split: sum.splits)

lemma batch_loop_capped:
  "capped items \<Longrightarrow> capped (batch_loop (flush_batch w) todo bt bi cc items)"
proof (induction todo arbitrary: bt bi cc items)
  case Nil
  then show ?case by (simp add: flush_batch_capped)
next
  case (Cons p todo)
  obtain idx tx where p: "p = (idx, tx)" by (cases p)
  show ?case
    using Cons.prems by (auto simp: p intro!: Cons.IH flush_batch_capped)
qed

lemma translate_summaries_capped: "capped items \<Longrightarrow> capped (translate_summaries w items)"
  by (simp add: translate_summaries_def Let_def batch_loop_capped)

lemma before_translation_capped: "capped all_news \<Longrightarrow> capped (before_translation w all_news)"
  unfolding before_translation_def
  by (intro enrich_capped capped_subset [OF _ per_source_cap_set]) (auto simp: capped_def)

lemma to_translate_texts: "capped items \<Longrightarrow> \<forall>t\<in>set (map snd (to_translate items)). length t \<le> 501"
  by (auto simp: to_translate_def capped_def in_set_enumerate_eq)

lemma capped_map_summary: "capped xs \<longleftrightarrow> (\<forall>s\<in>set (map summary xs). length s \<le> 501)"
  by (auto simp: capped_def)

lemma batch_loop_log_append:
  "batch_loop flush_log todo bt bi cc (calls @ extra) = calls @ batch_loop flush_log todo bt bi cc extra"
  by (induction todo arbitrary: bt bi cc extra) (auto simp: flush_log_def)

lemma batch_loop_log_prefix:
  "batch_loop flush_log todo bt bi cc calls = calls @ batch_loop flush_log todo bt bi cc []"
  using batch_loop_log_append [of todo bt bi cc calls "[]"] by simp

lemma batch_loop_calls:
  assumes "\<And>bi st. f bi [] st = st"
  shows "batch_loop f todo bt bi cc st =
     fold (\<lambda>(bi, bt). f bi bt) (batch_loop flush_log todo bt bi cc []) st"
proof (induction todo arbitrary: bt bi cc st)
  case Nil
  show ?case using assms by (simp add: flush_log_def)
next
  case (Cons p todo)
  obtain idx tx where p: "p = (idx, tx)" by (cases p)
  show ?case
  proof (cases "cc + length tx > 4500 \<and> bt \<noteq> []")
    case True
    have logged: "flush_log bi bt [] = [(bi, bt)]"
      using True by (simp add: flush_log_def)
    have "batch_loop flush_log (p # todo) bt bi cc [] =
        (bi, bt) # batch_loop flush_log todo [tx] [idx] (length tx) []"
      using True batch_loop_log_prefix [of todo "[tx]" "[idx]" "length tx" "[(bi, bt)]"]
      by (simp add: p logged)
    moreover have "batch_loop f (p # todo) bt bi cc st =
        batch_loop f todo [tx] [idx] (length tx) (f bi bt st)"
      using True by (simp add: p)
    ultimately show ?thesis
      using Cons.IH [of "[tx]" "[idx]" "length tx" "f bi bt st"] by simp
  next
    case False
    then show ?thesis
      using Cons.IH [of "bt @ [tx]" "bi @ [idx]" "cc + length tx" st]
      by (auto simp add: p)
  qed
qed

lemma batch_loop_concat:
  "concat (map snd (batch_loop flush_log todo bt bi cc calls)) =
     concat (map snd calls) @ bt @ map snd todo"
  by (induction todo arbitrary: bt bi cc calls) (auto simp: flush_log_def)

lemma batch_loop_within:
  "cc = batch_chars bt \<Longrightarrow> \<forall>c\<in>set calls. batch_ok (snd c) \<Longrightarrow> bt = [] \<or> batch_ok bt \<Longrightarrow>
   \<forall>c\<in>set (batch_loop flush_log todo bt bi cc calls). batch_ok (snd c)"
proof (induction todo arbitrary: bt bi cc calls)
  case Nil
  then show ?case by (auto simp: flush_log_def)
next
  case (Cons p todo)
  obtain idx tx where p: "p = (idx, tx)" by (cases p)
  show ?case
  proof (cases "cc + length tx > 4500 \<and> bt \<noteq> []")
    case True
    have "\<forall>c\<in>set (batch_loop flush_log todo [tx] [idx] (length tx) (flush_log bi bt calls)). batch_ok (snd c)"
      using Cons.prems True
      by (intro Cons.IH) (auto simp: flush_log_def batch_ok_def batch_chars_def)
    with True show ?thesis by (simp add: p)
  next
    case False
    have "\<forall>c\<in>set (batch_loop flush_log todo (bt @ [tx]) (bi @ [idx]) (cc + length tx) calls). batch_ok (snd c)"
      using Cons.prems False
      by (intro Cons.IH) (auto simp: batch_ok_def batch_chars_def)
    with False show ?thesis by (auto simp add: p)
  qed
qed

lemma batch_loop_small:
  "cc = batch_chars bt \<Longrightarrow> \<forall>c\<in>set calls. batch_chars (snd c) \<le> 4500 \<Longrightarrow> batch_chars bt \<le> 4500 \<Longrightarrow>
   \<forall>t\<in>set (map snd todo). length t \<le> 4500 \<Longrightarrow>
   \<forall>c\<in>set (batch_loop flush_log todo bt bi cc calls). batch_chars (snd c) \<le> 4500"
proof (induction todo arbitrary: bt bi cc calls)
  case Nil
  then show ?case by (auto simp: flush_log_def)
next
  case (Cons p todo)
  obtain idx tx where p: "p = (idx, tx)" by (cases p)
  show ?case
  proof (cases "cc + length tx > 4500 \<and> bt \<noteq> []")
    case True
    have "\<forall>c\<in>set (batch_loop flush_log todo [tx] [idx] (length tx) (flush_log bi bt calls)). batch_chars (snd c) \<le> 4500"
      using Cons.prems True
      by (intro Cons.IH) (auto simp: flush_log_def batch_chars_def p)
    with True show ?thesis by (simp add: p)
  next
    case False
    have "\<forall>c\<in>set (batch_loop flush_log todo (bt @ [tx]) (bi @ [idx]) (cc + length tx) calls). batch_chars (snd c) \<le> 4500"
      using Cons.prems False
      by (intro Cons.IH) (auto simp: batch_chars_def p)
    with False show ?thesis by (auto simp add: p)
  qed
qed

lemma batch_loop_greedy:
  "cc = batch_chars bt \<Longrightarrow> (bt = [] \<longrightarrow> calls = []) \<Longrightarrow>
   successively overflows (map snd calls @ (if bt = [] then [] else [bt])) \<Longrightarrow>
   successively overflows (map snd (batch_loop flush_log todo bt bi cc calls))"
proof (induction todo arbitrary: bt bi cc calls)
  case Nil
  then show ?case by (auto simp: flush_log_def)
next
  case (Cons p todo)
  obtain idx tx where p: "p = (idx, tx)" by (cases p)
  show ?case
  proof (cases "cc + length tx > 4500 \<and> bt \<noteq> []")
    case True
    have "successively overflows (map snd (batch_loop flush_log todo [tx] [idx] (length tx) (flush_log bi bt calls)))"
      using Cons.prems True
      by (intro Cons.IH) (auto simp: flush_log_def batch_chars_def overflows_def successively_append_iff)
    with True show ?thesis by (simp add: p)
  next
    case False
    have "successively overflows (map snd (batch_loop flush_log todo (bt @ [tx]) (bi @ [idx]) (cc + length tx) calls))"
      using Cons.prems False
      by (intro Cons.IH) (auto simp: batch_chars_def overflows_def successively_append_iff)
    with False show ?thesis by (auto simp add: p)
  qed
qed

text \<open>
  C7. The translation batcher puts the candidate texts, in input order and each one whole,
  into batches that are not empty; a batch exceeds the budget of 4500 characters only if
  it is a single text that is longer than the budget by itself, so for texts of at most
  4500 characters no batch exceeds it, and no batch of the pipeline does, whose
  candidates are summaries of at most 501 characters; a batch is closed exactly when the
  next text would not fit; texts of lengths 4000, 1000, 3000 give the batches
  [[4000], [1000, 3000]]; and these batches are the calls of the translator that
  \<open>_translate_summaries\<close> makes.
\<close>

theorem translate_batches_budget:
  "concat (batches todo) = map snd todo \<and>
   (\<forall>b\<in>set (batches todo). b \<noteq> [] \<and> (batch_chars b \<le> 4500 \<or> length b = 1)) \<and>
   ((\<forall>t\<in>set (map snd todo). length t \<le> 4500) \<longrightarrow>
      (\<forall>b\<in>set (batches todo). batch_chars b \<le> 4500)) \<and>
   (\<forall>all_news. merge_results w srcs = Inr all_news \<longrightarrow>
      (\<forall>b\<in>set (batches (to_translate (before_translation w all_news))).
         batch_chars b \<le> 4500)) \<and>
   successively (\<lambda>b c. batch_chars b + length (hd c) > 4500) (batches todo) \<and>
   (length a = 4000 \<and> length b = 1000 \<and> length c = 3000 \<longrightarrow>
      batches [(i, a), (j, b), (k, c)] = [[a], [b, c]]) \<and>
   translate_summaries w items =
     fold (\<lambda>(bi, bt). flush_batch w bi bt) (translate_calls (to_translate items)) items"
proof -
  have whole: "concat (batches todo) = map snd todo"
    using batch_loop_concat [of todo "[]" "[]" 0 "[]"]
    by (simp add: batches_def translate_calls_def)
  have "\<forall>c\<in>set (translate_calls todo). batch_ok (snd c)"
    unfolding translate_calls_def
    by (rule batch_loop_within) (simp_all add: batch_chars_def)
  then have ok: "\<forall>b\<in>set (batches todo). b \<noteq> [] \<and> (batch_chars b \<le> 4500 \<or> length b = 1)"
    by (auto simp: batches_def batch_ok_def)
  have small: "\<forall>b\<in>set (batches texts). batch_chars b \<le> 4500"
    if "\<forall>t\<in>set (map snd texts). length t \<le> 4500" for texts
  proof -
    have "\<forall>c\<in>set (translate_calls texts). batch_chars (snd c) \<le> 4500"
      unfolding translate_calls_def
      by (rule batch_loop_small) (use that in \<open>simp_all add: batch_chars_def\<close>)
    then show ?thesis by (auto simp: batches_def)
  qed
  have pipeline: "\<forall>b\<in>set (batches (to_translate (before_translation w all_news))).
      batch_chars b \<le> 4500"
    if m: "merge_results w srcs = Inr all_news" for all_news
  proof (rule small)
    have "capped (before_translation w all_news)"
      by (intro before_translation_capped merge_results_capped [OF m])
    from to_translate_texts [OF this]
    show "\<forall>t\<in>set (map snd (to_translate (before_translation w all_news))). length t \<le> 4500"
      by fastforce
  qed
  have "successively overflows (batches todo)"
    unfolding batches_def translate_calls_def
    by (rule batch_loop_greedy) (simp_all add: batch_chars_def)
  then have greedy: "successively (\<lambda>b c. batch_chars b + length (hd c) > 4500) (batches todo)"
    by (simp add: overflows_def [abs_def])
  have example: "batches [(i, a), (j, b), (k, c)] = [[a], [b, c]]"
    if "length a = 4000 \<and> length b = 1000 \<and> length c = 3000"
    using that by (auto simp: batches_def translate_calls_def flush_log_def)
  have calls: "translate_summaries w items =
      fold (\<lambda>(bi, bt). flush_batch w bi bt) (translate_calls (to_translate items)) items"
  proof (cases "to_translate items = []")
    case True
    then show ?thesis
      by (simp add: translate_summaries_def translate_calls_def flush_log_def)
  next
    case False
    have "batch_loop (flush_batch w) (to_translate items) [] [] 0 items =
        fold (\<lambda>(bi, bt). flush_batch w bi bt)
          (batch_loop flush_log (to_translate items) [] [] 0 []) items"
      by (rule batch_loop_calls) (simp add: flush_batch_def)
    with False show ?thesis
      by (simp add: translate_summaries_def translate_calls_def)
  qed
  from whole ok small [of todo] pipeline greedy example calls show ?thesis by blast
qed

theorem translate_batches_budget_witness:
  "batches three_texts = [[replicate 4000 97], [replicate 1000 98, replicate 3000 99]] \<and>
   map (map length) (batches three_texts) = [[4000], [1000, 3000]] \<and>
   list_all (\<lambda>t. length t \<le> 4500) (map snd three_texts) \<and>
   list_all (\<lambda>b. batch_chars b \<le> 4500) (batches three_texts) \<and>
   concat (batches three_texts) = map snd three_texts"
proof -
  have texts: "\<forall>t\<in>set (map snd three_texts). length t \<le> 4500"
    by (simp add: three_texts_def)
  have lens: "length (replicate 4000 (97::nat)) = 4000 \<and> length (replicate 1000 (98::nat)) = 1000 \<and>
      length (replicate 3000 (99::nat)) = 3000"
    by simp
  note inst = translate_batches_budget
    [where todo = three_texts and a = "replicate 4000 97" and b = "replicate 1000 98"
       and c = "replicate 3000 99" and i = 0 and j = 1 and k = 2]
  from inst lens have eq: "batches three_texts =
      [[replicate 4000 97], [replicate 1000 98, replicate 3000 99]]"
    unfolding three_texts_def by blast
  from inst texts have "\<forall>b\<in>set (batches three_texts). batch_chars b \<le> 4500"
    by blast
  then have small: "list_all (\<lambda>b. batch_chars b \<le> 4500) (batches three_texts)"
    by (simp add: list_all_iff)
  from inst have whole: "concat (batches three_texts) = map snd three_texts"
    by blast
  from eq small whole texts show ?thesis
    by (simp add: list_all_iff)
qed

section \<open>The time normalizer\<close>

lemma assume_utc_aware: "tzinfo (assume_utc d) \<noteq> None"
  by (simp add: assume_utc_def)

lemma try_formats_returns:
  assumes "strptime_contract w"
  shows "\<exists>r. try_formats w s fmts = Inr r \<and> aware_result r"
proof (induction fmts)
  case Nil
  show ?case by (simp add: aware_result_def)
next
  case (Cons fmt fmts)
  show ?case
  proof (cases "strptime w s fmt")
    case (Inl exc)
    with assms have "exc = ValueError" by (simp add: strptime_contract_def)
    with Inl Cons.IH show ?thesis by simp
  next
    case (Inr d)
    then show ?thesis by (simp add: aware_result_def assume_utc_aware)
  qed
qed

lemma try_formats_aware: "try_formats w s fmts = Inr r \<Longrightarrow> aware_result r"
  by (induction fmts) (auto simp: aware_result_def assume_utc_aware split: sum.splits if_splits)

lemma new_datetime_cases:
  "new_datetime y m d tz = Inl exc \<Longrightarrow> exc = ValueError"
  "new_datetime y m d tz = Inr d0 \<Longrightarrow> tzinfo d0 = tz"
  by (auto simp: new_datetime_def split: if_splits)

lemma replace_hour_minute_cases:
  "replace_hour_minute d0 h mi = Inl exc \<Longrightarrow> exc = ValueError"
  "replace_hour_minute d0 h mi = Inr d1 \<Longrightarrow> tzinfo d1 = tzinfo d0"
  by (auto simp: replace_hour_minute_def split: if_splits)

lemma date_from_match_cases:
  "date_from_match w s ymd = Inl exc \<Longrightarrow> exc = ValueError"
  "date_from_match w s ymd = Inr d1 \<Longrightarrow> tzinfo d1 = Some 0"
proof -
  obtain y m d where ymd: "ymd = (y, m, d)" by (cases ymd)
  show "exc = ValueError" if "date_from_match w s ymd = Inl exc"
  proof (cases "new_datetime y m d (Some 0)")
    case (Inl e)
    with that ymd show ?thesis
      by (simp add: date_from_match_def new_datetime_cases(1) [OF Inl, symmetric])
  next
    case (Inr d0)
    with that ymd show ?thesis
      by (auto simp: date_from_match_def dest: replace_hour_minute_cases(1)
          split: option.splits)
  qed
  show "tzinfo d1 = Some 0" if "date_from_match w s ymd = Inr d1"
  proof (cases "new_datetime y m d (Some 0)")
    case (Inl e)
    with that ymd show ?thesis by (simp add: date_from_match_def)
  next
    case (Inr d0)
    with that ymd new_datetime_cases(2) [OF Inr] show ?thesis
      by (auto simp: date_from_match_def dest: replace_hour_minute_cases(2)
          split: option.splits)
  qed
qed

lemma parse_time_returns:
  assumes "strptime_contract w"
  shows "\<exists>r. parse_time w s = Inr r \<and> aware_result r"
proof (cases "s = []")
  case True
  then show ?thesis by (simp add: parse_time_def aware_result_def)
next
  case False
  let ?t = "strip s"
  show ?thesis
  proof (cases "parsedate_to_datetime w ?t")
    case (Inr d)
    with False show ?thesis
      by (simp add: parse_time_def aware_result_def assume_utc_aware)
  next
    case (Inl exc)
    from try_formats_returns [OF assms, of ?t TIME_FORMATS] obtain r
      where r: "try_formats w ?t TIME_FORMATS = Inr r" and ar: "aware_result r" by blast
    show ?thesis
    proof (cases r)
      case (Some d)
      with False Inl r ar show ?thesis by (simp add: parse_time_def)
    next
      case None
      show ?thesis
      proof (cases "search_date w ?t")
        case None
        with False Inl r \<open>r = None\<close> show ?thesis
          by (simp add: parse_time_def aware_result_def)
      next
        case (Some ymd)
        show ?thesis
        proof (cases "date_from_match w ?t ymd")
          case (Inl e)
          then have "e = ValueError" by (rule date_from_match_cases(1))
          with False \<open>parsedate_to_datetime w ?t = Inl exc\<close> r \<open>r = None\<close> Some Inl
          show ?thesis by (simp add: parse_time_def aware_result_def)
        next
          case (Inr d1)
          then have "tzinfo d1 = Some 0" by (rule date_from_match_cases(2))
          with False Inl r \<open>r = None\<close> Some Inr
          show ?thesis by (simp add: parse_time_def aware_result_def)
        qed
      qed
    qed
  qed
qed

lemma parse_time_aware:
  assumes "parse_time w s = Inr r"
  shows "aware_result r"
proof (cases "s = []")
  case True
  with assms show ?thesis by (simp add: parse_time_def aware_result_def)
next
  case False
  let ?t = "strip s"
  show ?thesis
  proof (cases "parsedate_to_datetime w ?t")
    case (Inr d)
    with False assms show ?thesis
      by (auto simp: parse_time_def aware_result_def assume_utc_aware)
  next
    case (Inl exc)
    show ?thesis
    proof (cases "try_formats w ?t TIME_FORMATS")
      case (Inl e)
      with False \<open>parsedate_to_datetime w ?t = Inl exc\<close> assms show ?thesis
        by (simp add: parse_time_def)
    next
      case (Inr r')
      note fm = this
      show ?thesis
      proof (cases r')
        case (Some d)
        with False Inl fm assms try_formats_aware [OF fm] show ?thesis
          by (auto simp: parse_time_def)
      next
        case None
        show ?thesis
        proof (cases "search_date w ?t")
          case None
          with False Inl fm \<open>r' = None\<close> assms show ?thesis
            by (auto simp: parse_time_def aware_result_def)
        next
          case (Some ymd)
          show ?thesis
          proof (cases "date_from_match w ?t ymd")
            case (Inl e)
            with False \<open>parsedate_to_datetime w ?t = Inl exc\<close> fm \<open>r' = None\<close> Some assms
            show ?thesis
              by (auto simp: parse_time_def aware_result_def split: if_splits)
          next
            case (Inr d1)
            then have "tzinfo d1 = Some 0" by (rule date_from_match_cases(2))
            with False Inl fm \<open>r' = None\<close> Some Inr assms
            show ?thesis by (auto simp: parse_time_def aware_result_def)
          qed
        qed
      qed
    qed
  qed
qed

lemma resolve_times_returns:
  assumes "strptime_contract w"
  shows "\<exists>resolved. resolve_times w items = Inr resolved \<and> aware_items resolved"
proof (induction items)
  case Nil
  show ?case by (simp add: aware_items_def)
next
  case (Cons n ns)
  from parse_time_returns [OF assms, of "time n"] obtain r
    where "parse_time w (time n) = Inr r" and "aware_result r" by blast
  with Cons.IH show ?case
    by (auto simp: aware_items_def aware_result_def)
qed

lemma resolve_times_aware:
  "resolve_times w items = Inr resolved \<Longrightarrow> aware_items resolved"
proof (induction items arbitrary: resolved)
  case Nil
  then show ?case by (simp add: aware_items_def)
next
  case (Cons n ns)
  from Cons.prems obtain r rest where
    r: "parse_time w (time n) = Inr r" and rest: "resolve_times w ns = Inr rest"
    and res: "resolved = n\<lparr>dt := r\<rparr> # rest"
    by (auto simp: and_then_eq_Inr)
  from parse_time_aware [OF r] Cons.IH [OF rest] res show ?case
    by (auto simp: aware_items_def aware_result_def)
qed

lemma resolve_times_summary:
  "resolve_times w items = Inr resolved \<Longrightarrow> map summary resolved = map summary items"
proof (induction items arbitrary: resolved)
  case Nil
  then show ?case by simp
next
  case (Cons n ns)
  from Cons.prems obtain r rest where
    "resolve_times w ns = Inr rest" and "resolved = n\<lparr>dt := r\<rparr> # rest"
    by (auto simp: and_then_eq_Inr)
  with Cons.IH show ?case by simp
qed

lemma example_contract: "strptime_contract example_env"
  by (simp add: strptime_contract_def example_env_def)

lemma parse_rfc: "parse_time example_env (ustr_of ''Sat, 21 Feb 2026 12:00:00 GMT'') =
    Inr (Some \<lparr>wall_us = 63907272000000000, tzinfo = Some 0\<rparr>)"
proof -
  have "strip (ustr_of ''Sat, 21 Feb 2026 12:00:00 GMT'') = ustr_of ''Sat, 21 Feb 2026 12:00:00 GMT''"
    by (simp add: strip_def lstrip_def rstrip_def is_space_def ustr_of_def)
  then show ?thesis
    by (simp add: parse_time_def example_env_def assume_utc_def)
qed

lemma parse_naive: "parse_time example_env (ustr_of ''Sun, 01 Feb 2026 00:00:00 -0000'') =
    Inr (Some \<lparr>wall_us = 63905500800000000, tzinfo = Some 0\<rparr>)"
proof -
  have "strip (ustr_of ''Sun, 01 Feb 2026 00:00:00 -0000'') = ustr_of ''Sun, 01 Feb 2026 00:00:00 -0000''"
    by (simp add: strip_def lstrip_def rstrip_def is_space_def ustr_of_def)
  then show ?thesis
    by (simp add: parse_time_def example_env_def assume_utc_def)
qed

lemma ex_strptime_fail: "s \<noteq> ustr_of ''2026-02-28 10:00'' \<Longrightarrow> try_formats example_env s fmts = Inr None"
  by (induction fmts) (simp_all add: example_env_def)

lemma parse_chinese: "parse_time example_env chinese_date =
    Inr (Some \<lparr>wall_us = 63907605000000000, tzinfo = Some 0\<rparr>)"
proof -
  have s: "strip chinese_date = chinese_date"
    by (simp add: strip_def lstrip_def rstrip_def is_space_def ustr_of_def chinese_date_def)
  have p: "parsedate_to_datetime example_env chinese_date = Inl ValueError"
    by (simp add: example_env_def chinese_date_def ustr_of_def)
  have f: "try_formats example_env chinese_date TIME_FORMATS = Inr None"
    by (rule ex_strptime_fail) (simp add: chinese_date_def ustr_of_def)
  have dg: "ucd_decimal example_env = (\<lambda>c. None)" by (simp add: example_env_def)
  have d: "search_date example_env chinese_date = Some (2026, 2, 25)"
    by (simp add: chinese_date_def ustr_of_def match_date_def match_month_day_def is_digit_def
        digit_value_def to_int_def dg)
  have hm: "search_hm example_env chinese_date = Some (8, 30)"
    by (simp add: chinese_date_def ustr_of_def match_hm_def is_digit_def
        digit_value_def to_int_def dg)
  have m: "days_before_month 2026 2 = 31"
    by (simp add: days_before_month_def upt_rec days_in_month_def)
  have dt: "date_from_match example_env chinese_date (2026, 2, 25) =
      Inr \<lparr>wall_us = 63907605000000000, tzinfo = Some 0\<rparr>"
    by (simp add: date_from_match_def hm new_datetime_def days_in_month_def is_leap_def
        days_before_year_def m days_def replace_hour_minute_def)
  show ?thesis
    by (simp add: parse_time_def s p f d dt) (simp add: chinese_date_def ustr_of_def)
qed

text \<open>
  C6. For every input string \<open>_parse_time\<close> returns, without raising, \<open>None\<close> or a
  datetime with a zone, \<open>strptime\<close> raising nothing but the \<open>ValueError\<close> of its
  documentation; and it is a function of its input: equal strings give equal results.
\<close>

theorem parse_time_total:
  assumes "strptime_contract w"
  shows "(\<exists>r. parse_time w s = Inr r \<and> aware_result r) \<and>
         (s' = s \<longrightarrow> parse_time w s' = parse_time w s)"
  using parse_time_returns [OF assms, of s] by simp

theorem parse_time_total_witness:
  "strptime_contract example_env \<and>
   parse_time example_env chinese_date =
     Inr (Some \<lparr>wall_us = 63907605000000000, tzinfo = Some 0\<rparr>) \<and>
   parse_time example_env (ustr_of ''Sun, 01 Feb 2026 00:00:00 -0000'') =
     Inr (Some \<lparr>wall_us = 63905500800000000, tzinfo = Some 0\<rparr>) \<and>
   parse_time example_env [] = Inr None \<and>
   aware_result (Some \<lparr>wall_us = 63907605000000000, tzinfo = Some 0\<rparr>)"
proof -
  from parse_time_total [OF example_contract, of chinese_date] parse_chinese
  have "aware_result (Some \<lparr>wall_us = 63907605000000000, tzinfo = Some 0\<rparr>)"
    by auto
  moreover have "parse_time example_env [] = Inr None" by (simp add: parse_time_def)
  ultimately show ?thesis
    using example_contract parse_chinese parse_naive by simp
qed

section \<open>Freshness cutoff and sort\<close>

lemma instant_min: "utc_instant datetime_min_utc = 0" by (simp add: utc_instant_def datetime_min_utc_def)

lemma freshness_aware:
  "tzinfo cutoff \<noteq> None \<Longrightarrow> aware_items items \<Longrightarrow>
   freshness cutoff items = Inr (filter (\<lambda>n. \<not> stale cutoff n) items)"
proof (induction items)
  case Nil
  show ?case by simp
next
  case (Cons n ns)
  then have "freshness cutoff ns = Inr (filter (\<lambda>n. \<not> stale cutoff n) ns)"
    by (simp add: aware_items_def)
  moreover have "(case dt n of None \<Rightarrow> Inr True | Some d \<Rightarrow> dt_ge d cutoff) = Inr (\<not> stale cutoff n)"
    using Cons.prems
    by (auto simp: aware_items_def stale_def dt_ge_def split: option.splits)
  ultimately show ?case by simp
qed

lemma freshness_returns:
  "tzinfo cutoff \<noteq> None \<Longrightarrow> aware_items items \<Longrightarrow> \<exists>kept. freshness cutoff items = Inr kept"
  by (simp add: freshness_aware)

lemma freshness_subset: "freshness cutoff items = Inr kept \<Longrightarrow> set kept \<subseteq> set items"
proof (induction items arbitrary: kept)
  case Nil
  then show ?case by simp
next
  case (Cons n ns)
  from Cons.prems obtain keep rest where
    "freshness cutoff ns = Inr rest" and "kept = (if keep then n # rest else rest)"
    by (auto split: sum.splits)
  with Cons.IH [of rest] show ?case by auto
qed

lemma cutoff_value:
  "two_weeks \<le> now_us \<Longrightarrow> now_us \<le> MAX_US \<Longrightarrow>
   dt_minus (utc_now now_us) two_weeks = Inr \<lparr>wall_us = now_us - two_weeks, tzinfo = Some 0\<rparr>"
  by (simp add: dt_minus_def utc_now_def Let_def two_weeks_def MAX_US_def)

lemma sort_reverse_sorted:
  "sorted_wrt (\<lambda>a b. utc_instant (sort_key_of a) \<ge> utc_instant (sort_key_of b)) (sort_reverse items)"
proof -
  let ?k = "\<lambda>n. utc_instant (sort_key_of n)"
  have "sorted (map ?k (sort_key ?k (rev items)))" by simp
  then have "sorted_wrt (\<lambda>a b. ?k a \<le> ?k b) (sort_key ?k (rev items))"
    by (simp add: sorted_wrt_map)
  then show ?thesis
    by (simp add: sort_reverse_def sorted_wrt_rev)
qed

lemma sort_reverse_mset: "mset (sort_reverse items) = mset items"
  by (simp add: sort_reverse_def)

lemma sort_reverse_set: "set (sort_reverse items) = set items"
  by (simp add: sort_reverse_def)

lemma sort_reverse_time_order:
  assumes "\<forall>n\<in>set items. \<forall>d. dt n = Some d \<longrightarrow> utc_instant d > 0"
  shows "sorted_wrt time_order (sort_reverse items)"
proof (rule sorted_wrt_mono_rel [OF _ sort_reverse_sorted])
  fix a b
  assume "a \<in> set (sort_reverse items)" "b \<in> set (sort_reverse items)"
    and "utc_instant (sort_key_of b) \<le> utc_instant (sort_key_of a)"
  then show "time_order a b"
    using assms
    by (auto simp: time_order_def sort_key_of_def sort_reverse_set instant_min
        split: option.splits)
qed

lemma sorted_time_order_ordered: "sorted_wrt time_order out \<Longrightarrow> ordered out"
  unfolding ordered_def sorted_wrt_iff_nth_less
  by (auto simp: time_order_def split: option.splits)

lemma cutoff_sort_ordered:
  assumes "two_weeks < now_us" and "now_us \<le> MAX_US" and "aware_items resolved"
    and "dt_minus (utc_now now_us) two_weeks = Inr cutoff"
    and "freshness cutoff resolved = Inr kept"
  shows "ordered (sort_reverse kept)"
proof -
  let ?cutoff = "\<lparr>wall_us = now_us - two_weeks, tzinfo = Some 0\<rparr>"
  have "dt_minus (utc_now now_us) two_weeks = Inr ?cutoff"
    using assms(1,2) by (intro cutoff_value) simp_all
  with assms(4) have cutoff: "cutoff = ?cutoff" by simp
  have "freshness ?cutoff resolved = Inr (filter (\<lambda>n. \<not> stale ?cutoff n) resolved)"
    using assms(3) by (intro freshness_aware) simp_all
  with assms(5) cutoff have kept: "kept = filter (\<lambda>n. \<not> stale ?cutoff n) resolved" by simp
  have "\<forall>n\<in>set kept. \<forall>d. dt n = Some d \<longrightarrow> utc_instant d > 0"
    using assms(1) by (auto simp: kept stale_def utc_instant_def split: option.splits)
  then have "sorted_wrt time_order (sort_reverse kept)"
    by (rule sort_reverse_time_order)
  then show ?thesis by (rule sorted_time_order_ordered)
qed

lemma fetch_all_ordered:
  assumes "two_weeks < now_us" and "now_us \<le> MAX_US"
    and "fetch_all w now_us sources = Inr out"
  shows "ordered out"
proof -
  from assms(3) obtain all_news cutoff resolved kept where
    "dt_minus (utc_now now_us) two_weeks = Inr cutoff"
    "resolve_times w (translate_summaries w (before_translation w all_news)) = Inr resolved"
    "freshness cutoff resolved = Inr kept" "out = sort_reverse kept"
    unfolding fetch_all_def Let_def by (elim and_thenE) auto
  with cutoff_sort_ordered [OF assms(1,2) resolve_times_aware] show ?thesis by blast
qed

lemma fetch_all_returns:
  assumes "two_weeks \<le> now_us" and "now_us \<le> MAX_US" and "strptime_contract w"
  shows "\<exists>out. fetch_all w now_us sources = Inr out"
proof -
  obtain all_news where m: "merge_results w sources = Inr all_news"
    using merge_results_returns by blast
  let ?cutoff = "\<lparr>wall_us = now_us - two_weeks, tzinfo = Some 0\<rparr>"
  have c: "dt_minus (utc_now now_us) two_weeks = Inr ?cutoff"
    using assms(1,2) by (rule cutoff_value)
  obtain resolved where
    r: "resolve_times w (translate_summaries w (before_translation w all_news)) = Inr resolved"
    and a: "aware_items resolved"
    using resolve_times_returns [OF assms(3)] by blast
  have f: "freshness ?cutoff resolved = Inr (filter (\<lambda>n. \<not> stale ?cutoff n) resolved)"
    using a by (intro freshness_aware) simp_all
  show ?thesis
    by (simp add: fetch_all_def m c r f)
qed

lemma fetch_all_capped:
  assumes "fetch_all w now_us srcs = Inr out"
  shows "capped out"
proof -
  from assms obtain all_news cutoff resolved kept where
    m: "merge_results w srcs = Inr all_news" and
    r: "resolve_times w (translate_summaries w (before_translation w all_news)) = Inr resolved" and
    f: "freshness cutoff resolved = Inr kept" and out: "out = sort_reverse kept"
    unfolding fetch_all_def Let_def by (elim and_thenE) auto
  have "capped (translate_summaries w (before_translation w all_news))"
    by (intro translate_summaries_capped before_translation_capped merge_results_capped [OF m])
  with resolve_times_summary [OF r] have "capped resolved"
    by (simp add: capped_map_summary)
  with freshness_subset [OF f] have "capped kept" by (auto intro: capped_subset)
  then show ?thesis by (simp add: out capped_def sort_reverse_set)
qed

lemma ex_og: "og_description example_env url =
    (if url = ustr_of ''http://feed/1'' then ustr_of ''Oil prices rose on Monday'' else [])"
  by (simp add: example_env_def)

lemma ex_kw: "matches_keywords example_env n"
  by (simp add: matches_keywords_def example_env_def)

lemma example_cap: "per_source_cap (feed_items @ page_items) = feed_items @ page_items"
  by (simp add: per_source_cap_def feed_items_def page_items_def MAX_ITEMS_PER_SOURCE_def Let_def
      oil_item_def brent_item_def lng_item_def shale_item_def)

lemma example_before: "before_translation example_env (feed_items @ page_items) = enriched_items"
proof -
  have "filter (matches_keywords example_env) (feed_items @ page_items) = feed_items @ page_items"
    by (simp add: ex_kw)
  then have "before_translation example_env (feed_items @ page_items) =
      enrich example_env (feed_items @ page_items)"
    by (simp add: before_translation_def example_cap)
  also have "\<dots> = enriched_items"
    by (simp add: enrich_def needs_enrich_def short_useless enrich_item_def ex_og Let_def
        truncate_def feed_items_def page_items_def enriched_items_def oil_item_def
        brent_item_def lng_item_def shale_item_def)
  finally show ?thesis .
qed

lemma example_todo: "to_translate enriched_items =
    [(0, ustr_of ''Oil prices rose on Monday''), (1, ustr_of ''Brent falls''),
     (3, ustr_of ''Shale summary'')]"
  by (simp add: to_translate_def enriched_items_def oil_item_def brent_item_def lng_item_def
      shale_item_def is_chinese_def ustr_of_def)

lemma example_translate: "translate_summaries example_env enriched_items = translated_items"
proof -
  have tb: "translate_batch example_env texts =
      Inr (map (\<lambda>t. if length t > 20 then Some (replicate 12 20013) else None) texts)" for texts
    by (simp add: example_env_def)
  have len: "length enriched_items = 4" by (simp add: enriched_items_def)
  show ?thesis
    by (simp add: translate_summaries_def example_todo flush_batch_def tb len truncate_def
        translated_items_def) (simp add: enriched_items_def)
qed

lemmas example_items = oil_item_def brent_item_def lng_item_def shale_item_def

lemma example_resolve: "resolve_times example_env translated_items = Inr resolved_items"
proof -
  have empty: "parse_time example_env [] = Inr None" by (simp add: parse_time_def)
  have times: "time oil_item = ustr_of ''Sat, 21 Feb 2026 12:00:00 GMT''"
    "time brent_item = ustr_of ''Sun, 01 Feb 2026 00:00:00 -0000''"
    "time lng_item = chinese_date" "time shale_item = []" "shale_item\<lparr>dt := None\<rparr> = shale_item"
    by (simp_all add: example_items)
  show ?thesis
    by (simp add: translated_items_def resolved_items_def times parse_rfc parse_naive
        parse_chinese empty)
qed

lemma example_pipeline: "fetch_all example_env example_now example_sources = Inr example_output"
proof -
  have cutoff: "dt_minus (utc_now example_now) two_weeks =
      Inr \<lparr>wall_us = example_now - two_weeks, tzinfo = Some 0\<rparr>"
    by (rule cutoff_value) (simp_all add: example_now_def days_def two_weeks_def MAX_US_def)
  have fresh: "freshness \<lparr>wall_us = example_now - two_weeks, tzinfo = Some 0\<rparr> resolved_items =
      Inr [oil_item\<lparr>summary := replicate 12 20013,
               dt := Some \<lparr>wall_us = 63907272000000000, tzinfo = Some 0\<rparr>\<rparr>,
           lng_item\<lparr>dt := Some \<lparr>wall_us = 63907605000000000, tzinfo = Some 0\<rparr>\<rparr>,
           shale_item]"
    by (simp add: resolved_items_def dt_ge_def utc_instant_def example_now_def days_def
        two_weeks_def shale_item_def)
  have sorted: "sort_reverse
      [oil_item\<lparr>summary := replicate 12 20013,
               dt := Some \<lparr>wall_us = 63907272000000000, tzinfo = Some 0\<rparr>\<rparr>,
       lng_item\<lparr>dt := Some \<lparr>wall_us = 63907605000000000, tzinfo = Some 0\<rparr>\<rparr>,
       shale_item] = example_output"
    by (simp add: sort_reverse_def sort_key_of_def utc_instant_def datetime_min_utc_def
        shale_item_def example_output_def)
  show ?thesis
    by (simp add: fetch_all_def example_merge example_before example_translate cutoff
        example_resolve fresh sorted)
qed

text \<open>
  C5. With the clock at \<open>now\<close>, the freshness stage drops exactly the items whose resolved
  time is known and strictly older than \<open>now\<close> minus 2 weeks, and keeps the others in their
  order: an item dated \<open>now\<close> - 13 days is kept, one dated \<open>now\<close> - 15 days is dropped, an
  item with unknown time is kept.
\<close>

theorem freshness_cutoff:
  assumes "two_weeks \<le> now_us" and "now_us \<le> MAX_US" and "aware_items items"
  shows "\<exists>cutoff kept.
     dt_minus (utc_now now_us) two_weeks = Inr cutoff \<and>
     freshness cutoff items = Inr kept \<and>
     kept = filter (\<lambda>n. \<not> (\<exists>d. dt n = Some d \<and> utc_instant d < now_us - two_weeks)) items \<and>
     (\<forall>n\<in>set items. \<forall>d. dt n = Some d \<and> utc_instant d = now_us - days 13 \<longrightarrow> n \<in> set kept) \<and>
     (\<forall>n d. dt n = Some d \<and> utc_instant d = now_us - days 15 \<longrightarrow> n \<notin> set kept) \<and>
     (\<forall>n\<in>set items. dt n = None \<longrightarrow> n \<in> set kept)"
proof -
  let ?cutoff = "\<lparr>wall_us = now_us - two_weeks, tzinfo = Some 0\<rparr>"
  let ?kept = "filter (\<lambda>n. \<not> stale ?cutoff n) items"
  have cut: "dt_minus (utc_now now_us) two_weeks = Inr ?cutoff"
    using assms(1,2) by (rule cutoff_value)
  have fresh: "freshness ?cutoff items = Inr ?kept"
    using assms(3) by (intro freshness_aware) simp_all
  have stale_iff: "stale ?cutoff n \<longleftrightarrow> (\<exists>d. dt n = Some d \<and> utc_instant d < now_us - two_weeks)" for n
    by (auto simp: stale_def utc_instant_def split: option.splits)
  have kept: "?kept = filter (\<lambda>n. \<not> (\<exists>d. dt n = Some d \<and> utc_instant d < now_us - two_weeks)) items"
    by (simp add: stale_iff)
  have inst: "utc_instant ?cutoff = now_us - 14 * 86400000000"
    by (simp add: utc_instant_def two_weeks_def)
  have recent: "\<forall>n\<in>set items. \<forall>d. dt n = Some d \<and> utc_instant d = now_us - days 13 \<longrightarrow> n \<in> set ?kept"
    by (auto simp: stale_def inst days_def)
  have old: "\<forall>n d. dt n = Some d \<and> utc_instant d = now_us - days 15 \<longrightarrow> n \<notin> set ?kept"
    by (auto simp: stale_def inst days_def)
  have unknown: "\<forall>n\<in>set items. dt n = None \<longrightarrow> n \<in> set ?kept"
    by (auto simp: stale_iff)
  from cut fresh kept recent old unknown show ?thesis by blast
qed

theorem freshness_cutoff_witness:
  "two_weeks \<le> example_now \<and> example_now \<le> MAX_US \<and> aware_items dated_items \<and>
   (\<exists>cutoff. dt_minus (utc_now example_now) two_weeks = Inr cutoff \<and>
      freshness cutoff dated_items =
        Inr [item_of ''A'' ''undated'', dated_item ''recent'' (example_now - days 13),
             dated_item ''new'' (example_now - days 1)])"
proof -
  have clock: "two_weeks \<le> example_now" "example_now \<le> MAX_US"
    by (simp_all add: example_now_def days_def two_weeks_def MAX_US_def)
  have aware: "aware_items dated_items"
    by (auto simp: aware_items_def dated_items_def dated_item_def item_of_def)
  have kept: "filter (\<lambda>n. \<not> (\<exists>d. dt n = Some d \<and> utc_instant d < example_now - two_weeks))
      dated_items =
      [item_of ''A'' ''undated'', dated_item ''recent'' (example_now - days 13),
       dated_item ''new'' (example_now - days 1)]"
    by (simp add: dated_items_def dated_item_def item_of_def utc_instant_def days_def
        two_weeks_def)
  from freshness_cutoff [OF clock aware] kept clock aware show ?thesis
    by auto
qed

text \<open>
  C4. In the list that \<open>fetch_all\<close> returns, every item with a known resolved time
  precedes every item with unknown time, and the known times do not increase; and
  \<open>fetch_all\<close> returns such a list, \<open>strptime\<close> raising nothing but \<open>ValueError\<close>. The
  clock is later than 0001-01-15, so that the cutoff is later than \<open>datetime.min\<close>, the
  key of the items with unknown time.
\<close>

theorem final_list_order:
  assumes "two_weeks < now_us" and "now_us \<le> MAX_US"
  shows "(strptime_contract w \<longrightarrow> (\<exists>out. fetch_all w now_us sources = Inr out)) \<and>
         (\<forall>out. fetch_all w now_us sources = Inr out \<longrightarrow>
            (\<forall>i j. i < j \<and> j < length out \<longrightarrow>
               (dt (out ! j) \<noteq> None \<longrightarrow> dt (out ! i) \<noteq> None) \<and>
               (\<forall>x y. dt (out ! i) = Some x \<and> dt (out ! j) = Some y \<longrightarrow>
                  utc_instant y \<le> utc_instant x)))"
proof -
  have "\<exists>out. fetch_all w now_us sources = Inr out" if "strptime_contract w"
    using assms that by (intro fetch_all_returns) simp_all
  moreover have "ordered out" if "fetch_all w now_us sources = Inr out" for out
    using assms that by (rule fetch_all_ordered)
  ultimately show ?thesis
    unfolding ordered_def by blast
qed

theorem final_list_order_witness:
  "two_weeks < example_now \<and> example_now \<le> MAX_US \<and> strptime_contract example_env \<and>
   fetch_all example_env example_now example_sources = Inr example_output \<and>
   map dt example_output =
     [Some \<lparr>wall_us = 63907605000000000, tzinfo = Some 0\<rparr>,
      Some \<lparr>wall_us = 63907272000000000, tzinfo = Some 0\<rparr>, None] \<and>
   ordered example_output"
proof -
  have clock: "two_weeks < example_now" "example_now \<le> MAX_US"
    by (simp_all add: example_now_def days_def two_weeks_def MAX_US_def)
  from final_list_order [OF clock, of example_env example_sources] example_pipeline
  have "ordered example_output"
    unfolding ordered_def by blast
  moreover have "map dt example_output =
     [Some \<lparr>wall_us = 63907605000000000, tzinfo = Some 0\<rparr>,
      Some \<lparr>wall_us = 63907272000000000, tzinfo = Some 0\<rparr>, None]"
    by (simp add: example_output_def shale_item_def)
  ultimately show ?thesis
    using clock example_contract example_pipeline by simp
qed

section \<open>The summary bound\<close>

text \<open>
  C9. Every summary stored on an item is at most 501 characters long, 500 characters and
  the ellipsis mark: in what every fetcher returns, after the enricher, after the
  translator, and so in the merged list, in the list the translator reads, whose
  candidates are therefore below the budget of 4500, and in the list \<open>fetch_all\<close>
  returns.
\<close>

theorem summaries_at_most_501:
  "(\<forall>items. fetch_source w src = Inr items \<longrightarrow> capped items) \<and>
   (capped items \<longrightarrow> capped (enrich w items) \<and> capped (translate_summaries w items)) \<and>
   (\<forall>all_news. merge_results w srcs = Inr all_news \<longrightarrow>
      capped all_news \<and> capped (before_translation w all_news) \<and>
      capped (translate_summaries w (before_translation w all_news)) \<and>
      (\<forall>t\<in>set (map snd (to_translate (before_translation w all_news))).
         length t \<le> 501 \<and> length t < 4500)) \<and>
   (\<forall>out. fetch_all w now_us srcs = Inr out \<longrightarrow> capped out)"
proof -
  have fetched: "\<forall>items. fetch_source w src = Inr items \<longrightarrow> capped items"
    by (simp add: fetch_source_capped)
  have stages: "capped items \<longrightarrow> capped (enrich w items) \<and> capped (translate_summaries w items)"
    by (simp add: enrich_capped translate_summaries_capped)
  have merged: "capped all_news \<and> capped (before_translation w all_news) \<and>
      capped (translate_summaries w (before_translation w all_news)) \<and>
      (\<forall>t\<in>set (map snd (to_translate (before_translation w all_news))).
         length t \<le> 501 \<and> length t < 4500)"
    if m: "merge_results w srcs = Inr all_news" for all_news
  proof -
    have a: "capped all_news" using m by (rule merge_results_capped)
    then have b: "capped (before_translation w all_news)" by (rule before_translation_capped)
    then have c: "capped (translate_summaries w (before_translation w all_news))"
      by (rule translate_summaries_capped)
    from to_translate_texts [OF b]
    have "\<forall>t\<in>set (map snd (to_translate (before_translation w all_news))).
        length t \<le> 501 \<and> length t < 4500"
      by fastforce
    with a b c show ?thesis by simp
  qed
  have final: "\<forall>out. fetch_all w now_us srcs = Inr out \<longrightarrow> capped out"
    by (simp add: fetch_all_capped)
  from fetched stages merged final show ?thesis by blast
qed

theorem summaries_at_most_501_witness:
  "fetch_source example_env api_source = Inr api_items \<and> capped api_items \<and>
   length (summary (api_items ! 0)) = 501 \<and>
   fetch_all example_env example_now example_sources = Inr example_output \<and>
   capped example_output"
proof -
  note inst = summaries_at_most_501 [of example_env api_source "[]" example_sources example_now]
  from inst api_fetch have a: "capped api_items" by blast
  from inst example_pipeline have b: "capped example_output" by blast
  have "length (summary (api_items ! 0)) = 501" by (simp add: api_items_def)
  with a b api_fetch example_pipeline show ?thesis by simp
qed

end
